theory Spec2Isabelle
  imports Main "HOL-Library.Word"
begin

section \<open>Strings and paths\<close>

text \<open>
  The transfer code of \<^verbatim>\<open>common/transfer.go\<close> manipulates host names and paths with a
  handful of functions of Go's \<^verbatim>\<open>strings\<close>, \<^verbatim>\<open>strconv\<close> and \<^verbatim>\<open>path\<close> packages. They are
  given here as functions on \<^typ>\<open>string\<close> (a list of bytes, as a Go string is).
\<close>

text \<open>\<^verbatim>\<open>strings.Split(s, sep)\<close> for a separator of one byte: \<open>n\<close> separators give \<open>n + 1\<close> fields.\<close>

fun split_on :: "char \<Rightarrow> string \<Rightarrow> string list" where
  "split_on c [] = [[]]"
| "split_on c (x # xs) =
     (if x = c then [] # split_on c xs
      else (case split_on c xs of [] \<Rightarrow> [[x]] | y # ys \<Rightarrow> (x # y) # ys))"

text \<open>\<^verbatim>\<open>strings.Join(elems, sep)\<close>.\<close>

fun join_with :: "string \<Rightarrow> string list \<Rightarrow> string" where
  "join_with sep [] = []"
| "join_with sep [x] = x"
| "join_with sep (x # y # ys) = x @ sep @ join_with sep (y # ys)"

text \<open>\<^verbatim>\<open>strings.Replace(s, old, new, -1)\<close> for \<open>old\<close> and \<open>new\<close> of one byte each.\<close>

definition replace_all :: "char \<Rightarrow> char \<Rightarrow> string \<Rightarrow> string" where
  "replace_all old new s = map (\<lambda>c. if c = old then new else c) s"

text \<open>\<^verbatim>\<open>strings.HasSuffix(s, "/")\<close>.\<close>

definition has_slash_suffix :: "string \<Rightarrow> bool" where
  "has_slash_suffix s = (s \<noteq> [] \<and> last s = CHR ''/'')"

text \<open>\<^verbatim>\<open>strconv.Itoa\<close>, also the verb \<^verbatim>\<open>%d\<close> of \<^verbatim>\<open>fmt\<close>: decimal digits, a minus sign when negative.\<close>

definition digit_char :: "nat \<Rightarrow> char" where
  "digit_char d = ''0123456789'' ! d"

fun digits :: "nat \<Rightarrow> string" where
  "digits n = (if n < 10 then [digit_char n] else digits (n div 10) @ [digit_char (n mod 10)])"

declare digits.simps [simp del]

definition Itoa :: "int \<Rightarrow> string" where
  "Itoa i = (if i < 0 then CHR ''-'' # digits (nat (- i)) else digits (nat i))"

text \<open>
  \<^verbatim>\<open>path.Base\<close>: the last element of a path. Trailing slashes are removed first; the empty
  path gives \<^verbatim>\<open>.\<close> and a path of slashes only gives \<^verbatim>\<open>/\<close>.
\<close>

definition strip_slashes :: "string \<Rightarrow> string" where
  "strip_slashes p = rev (dropWhile (\<lambda>c. c = CHR ''/'') (rev p))"

definition last_element :: "string \<Rightarrow> string" where
  "last_element p = rev (takeWhile (\<lambda>c. c \<noteq> CHR ''/'') (rev p))"

definition path_Base :: "string \<Rightarrow> string" where
  "path_Base p =
     (if p = [] then ''.''
      else (let q = last_element (strip_slashes p) in if q = [] then ''/'' else q))"

text \<open>
  \<^verbatim>\<open>path.Clean\<close>: the shortest path equivalent to the argument by purely lexical
  processing. The elements of the path are visited from left to right and collected in
  \<open>out\<close>: empty elements and \<^verbatim>\<open>.\<close> are dropped, \<^verbatim>\<open>..\<close> removes the element before it when
  there is one to remove, is kept at the front of a path that is not rooted, and is
  dropped at the root. An empty result is \<^verbatim>\<open>.\<close>.
\<close>

definition clean_step :: "bool \<Rightarrow> string list \<Rightarrow> string \<Rightarrow> string list" where
  "clean_step rooted out el =
     (if el = [] \<or> el = ''.'' then out
      else if el = ''..'' then
        (if out \<noteq> [] \<and> last out \<noteq> ''..'' then butlast out
         else if \<not> rooted then out @ [''..'']
         else out)
      else out @ [el])"

definition path_Clean :: "string \<Rightarrow> string" where
  "path_Clean p =
     (if p = [] then ''.''
      else (let rooted = (hd p = CHR ''/'');
                out = foldl (clean_step rooted) [] (split_on CHR ''/'' p);
                s = (if rooted then ''/'' else []) @ join_with ''/'' out
            in if s = [] then ''.'' else s))"

text \<open>
  \<^verbatim>\<open>path.Join\<close>: the elements from the first non-empty one on, joined by slashes and
  cleaned; the empty string when every element is empty.
\<close>

definition path_Join :: "string list \<Rightarrow> string" where
  "path_Join elems =
     (case dropWhile (\<lambda>e. e = []) elems of
        [] \<Rightarrow> []
      | e # es \<Rightarrow> path_Clean (join_with ''/'' (e # es)))"

section \<open>Naming of fetched files\<close>

text \<open>
  Lines 159 to 170 of \<^verbatim>\<open>get\<close>: the name under which a fetched file is stored is built from
  the base name of the remote file and from the address of the peer as the connection
  reports it (\<^verbatim>\<open>host:port\<close>). \<open>xaddr\<close> and \<open>exp\<close> are the two \<^verbatim>\<open>strings.Split\<close> results; a
  split is never empty, so \<^verbatim>\<open>xaddr[0]\<close> is its head.
\<close>

definition dest_name :: "string \<Rightarrow> string \<Rightarrow> string" where
  "dest_name basename addr =
     (let xaddr = split_on CHR '':'' addr;
          exp = split_on CHR ''.'' basename;
          lenth = length exp;
          (ext, prefName) =
            (if lenth > 1 then (exp ! (lenth - 1), join_with ''.'' (take (lenth - 1) exp))
             else ([], basename))
      in prefName @ ''-'' @ replace_all CHR ''.'' CHR ''-'' (hd xaddr) @ ''.'' @ ext)"

section \<open>Data model\<close>

text \<open>The constants of the package.\<close>

definition TransferGet :: string where
  "TransferGet = ''GET''"

definition TransferPut :: string where
  "TransferPut = ''PUT''"

definition TransferDefaultMaxSize :: int where
  "TransferDefaultMaxSize = 1099511627776"

text \<open>
  Errors are values. \<open>Lib\<close> is an error produced by a call into a library (\<^verbatim>\<open>ssh\<close>,
  \<^verbatim>\<open>sftp\<close>, \<^verbatim>\<open>os\<close>), which the code hands on unchanged; the others are the four errors
  the code builds itself, with their messages.
\<close>

datatype error =
    Lib string
  | RemoteDirGet
  | MaxTransferSize int
  | RemoteFileExists
  | LocalIsDir

fun error_msg :: "error \<Rightarrow> string" where
  "error_msg (Lib m) = m"
| "error_msg RemoteDirGet = ''Remote dir get is not supported''"
| "error_msg (MaxTransferSize n) = ''Max transfer size is set to '' @ Itoa n"
| "error_msg RemoteFileExists = ''Remote file exists''"
| "error_msg LocalIsDir = ''Local is dir,recursive transfer not supported now''"

text \<open>
  How a call ends: it returns, or the process is terminated by \<^verbatim>\<open>log.Fatalln\<close> (\<open>Exit\<close>), or
  it dereferences a nil pointer (\<open>Panic\<close>).
\<close>

datatype 'a outcome = Return 'a | Exit | Panic

type_synonym bytes = "8 word list"

text \<open>\<^verbatim>\<open>os.FileInfo\<close>, as far as the code reads it.\<close>

record file_info =
  fi_Name :: string
  fi_Size :: int
  fi_IsDir :: bool

text \<open>
  A file opened for reading: the bytes it holds, and what the successive calls of \<^verbatim>\<open>Read\<close>
  return. The \<open>k\<close>-th element of \<open>f_reads\<close> is the data of the \<open>k\<close>-th call (\<open>n\<close> is its
  length, at most the 1024 bytes of the buffer); an empty element is a call that returns
  no data, which is what a failing read does; after the last element \<^verbatim>\<open>Read\<close> returns
  \<open>0\<close> and \<^verbatim>\<open>io.EOF\<close>.
\<close>

record src_file =
  f_content :: bytes
  f_reads :: "bytes list"

text \<open>
  The remote side of an SFTP session: the answers of \<^verbatim>\<open>Stat\<close>, of \<^verbatim>\<open>Open\<close> and of
  \<^verbatim>\<open>OpenFile\<close> with \<^verbatim>\<open>O_CREATE|O_WRONLY|O_TRUNC\<close>.
\<close>

record remote =
  r_Stat :: "string \<Rightarrow> error + file_info"
  r_Open :: "string \<Rightarrow> error + src_file"
  r_OpenFile :: "string \<Rightarrow> error option"

text \<open>
  \<^verbatim>\<open>*ssh.Client\<close> and \<^verbatim>\<open>*sftp.Client\<close>. Every successful dial gives a new connection, which
  is numbered in the order of the dials; the session opened on it carries its number.
\<close>

record ssh_client =
  c_id :: nat
  c_RemoteAddr :: string

record sftp_client =
  sc_id :: nat
  sc_remote :: remote

text \<open>What a successful \<^verbatim>\<open>ssh.Dial\<close> reaches: the address of the peer and the result of
  \<^verbatim>\<open>sftp.NewClient\<close> on the connection.\<close>

record peer =
  p_RemoteAddr :: string
  p_NewClient :: "error + remote"

text \<open>
  Everything outside the program: the configuration \<^verbatim>\<open>C\<close> and \<^verbatim>\<open>GetAuth\<close> (both defined
  elsewhere in the package, and parameters here), the network, the local file system, the
  time each transfer takes (nanoseconds, by connection) and the text that the verb
  \<^verbatim>\<open>%.2f\<close> prints for a duration in seconds (a floating point conversion, a parameter).
\<close>

record world =
  GetAuth :: "error option"
  DefaultPort :: int
  TransferMaxSize :: int
  ssh_Dial :: "string \<Rightarrow> error + peer"
  os_Stat :: "string \<Rightarrow> error + file_info"
  os_MkdirAll :: "string \<Rightarrow> error option"
  os_Create :: "string \<Rightarrow> error option"
  os_Open :: "string \<Rightarrow> error + src_file"
  elapsed :: "nat \<Rightarrow> int"
  format_seconds :: "int \<Rightarrow> string"

record FileTransfer =
  Source :: string
  Target :: string
  Size :: int
  Elapse :: int

text \<open>
  The struct \<^verbatim>\<open>Transfer\<close>. A Go map is a partial function; a key of \<open>SftpClient\<close> can hold
  the nil pointer (\<open>None\<close>), which \<^verbatim>\<open>initClient\<close> stores when the session fails. The mutex
  \<open>Lock\<close> guards the one update of \<open>TransferResult\<close> that a task makes, which is a single
  step here.
\<close>

record Transfer =
  Inited :: bool
  Method :: string
  LocalPath :: string
  RemotePath :: string
  Recursive :: bool
  Hosts :: "string list"
  Clients :: "string \<rightharpoonup> ssh_client"
  SftpClient :: "string \<rightharpoonup> sftp_client option"
  Override :: bool
  TransferResult :: "string \<rightharpoonup> FileTransfer"

definition NewTransfer :: "string \<Rightarrow> string \<Rightarrow> string \<Rightarrow> string list \<Rightarrow> Transfer" where
  "NewTransfer method localPath remotePath hosts =
     \<lparr>Inited = True, Method = method, LocalPath = localPath, RemotePath = remotePath,
      Recursive = False, Hosts = hosts, Clients = Map.empty, SftpClient = Map.empty,
      Override = False, TransferResult = Map.empty\<rparr>"

text \<open>
  What the program does to the outside is recorded as a list of events, in order: the
  dials, the sessions and connections opened and closed, the calls on the remote and the
  local file system, the lines printed, and the end of each task with the error it
  returned (the point of \<^verbatim>\<open>wg.Done\<close>).
\<close>

datatype event =
    Dial string
  | Connected nat
  | SessionOpened nat
  | SessionClosed nat
  | ChannelClosed nat
  | RemoteStat nat string
  | RemoteOpen nat string
  | RemoteCreate nat string
  | RemoteWrite nat string bytes
  | LocalStat string
  | LocalMkdirAll string
  | LocalOpen string
  | LocalCreate string
  | LocalWrite string bytes
  | Println string
  | Fatalln string
  | TaskDone string "error option"

text \<open>The state of a run: the struct, the events so far, the number of connections made.\<close>

record sys =
  tr :: Transfer
  trace :: "event list"
  conns :: nat

definition emit :: "event list \<Rightarrow> sys \<Rightarrow> sys" where
  "emit es s = s\<lparr>trace := trace s @ es\<rparr>"

definition store_result :: "string \<Rightarrow> FileTransfer \<Rightarrow> sys \<Rightarrow> sys" where
  "store_result addr ft s = s\<lparr>tr := (tr s)\<lparr>TransferResult := (TransferResult (tr s))(addr \<mapsto> ft)\<rparr>\<rparr>"

definition fresh :: "Transfer \<Rightarrow> sys" where
  "fresh t = \<lparr>tr = t, trace = [], conns = 0\<rparr>"

section \<open>The copy loop\<close>

text \<open>\<^verbatim>\<open>int64\<close> arithmetic wraps around.\<close>

definition int64 :: "int \<Rightarrow> int" where
  "int64 x = (x + 2 ^ 63) mod 2 ^ 64 - 2 ^ 63"

text \<open>
  The loop of lines 182 to 189 and 227 to 234: read into the buffer, stop when the read
  gives less than one byte (its error is dropped), otherwise add \<open>n\<close> to the size \<open>sz\<close> and write
  the \<open>n\<close> bytes (the result of the write is dropped too). The function returns \<open>sz\<close>
  and the arguments of the calls of \<^verbatim>\<open>Write\<close>, in order.
\<close>

fun copy_loop :: "bytes list \<Rightarrow> int \<Rightarrow> bytes list \<Rightarrow> int \<times> bytes list" where
  "copy_loop [] sz written = (sz, written)"
| "copy_loop (r # rs) sz written =
     (if length r < 1 then (sz, written)
      else copy_loop rs (int64 (sz + int (length r))) (written @ [r]))"

section \<open>The transfer of one host\<close>

text \<open>
  \<open>get\<close>, lines 142 to 196. The name of a file handle is the path it was opened with, for
  \<^verbatim>\<open>sftp.File\<close> and for \<^verbatim>\<open>os.File\<close> alike. The session \<open>sc\<close> is used first by \<^verbatim>\<open>Stat\<close>
  and the connection \<open>c\<close> first at line 159; a nil pointer panics there.
\<close>

definition get ::
  "world \<Rightarrow> sftp_client option \<Rightarrow> ssh_client option \<Rightarrow> string \<Rightarrow> string \<Rightarrow> sys
     \<Rightarrow> error option outcome \<times> sys" where
  "get w sc0 c0 remotePath localPath s =
     (case sc0 of
        None \<Rightarrow> (Panic, s)
      | Some sc \<Rightarrow>
         (let s1 = emit [RemoteStat (sc_id sc) remotePath] s in
          case r_Stat (sc_remote sc) remotePath of
            Inl e \<Rightarrow> (Return (Some e), s1)
          | Inr fi \<Rightarrow>
             if fi_IsDir fi then (Return (Some RemoteDirGet), s1)
             else if fi_Size fi > TransferMaxSize w
               then (Return (Some (MaxTransferSize (TransferMaxSize w))), s1)
             else
              (let basename = path_Base (fi_Name fi);
                   s2 = emit [RemoteOpen (sc_id sc) remotePath] s1 in
               case r_Open (sc_remote sc) remotePath of
                 Inl e \<Rightarrow> (Return (Some e), s2)
               | Inr srcFile \<Rightarrow>
                  (case c0 of
                     None \<Rightarrow> (Panic, s2)
                   | Some c \<Rightarrow>
                      (let addr = c_RemoteAddr c;
                           target = path_Join [localPath, dest_name basename addr];
                           s3 = emit [LocalCreate target] s2 in
                       case os_Create w target of
                         Some e \<Rightarrow> (Return (Some e), s3)
                       | None \<Rightarrow>
                          (let (sz, written) = copy_loop (f_reads srcFile) 0 [];
                               ft = \<lparr>Source = remotePath, Target = target, Size = sz,
                                     Elapse = elapsed w (c_id c)\<rparr>
                           in (Return None,
                               store_result addr ft
                                 (emit (map (LocalWrite target) written) s3))))))))"

text \<open>Lines 198 to 202 of \<open>put\<close>: the remote path that is written.\<close>

definition put_target :: "string \<Rightarrow> string \<Rightarrow> string" where
  "put_target localPath remotePath =
     (if has_slash_suffix remotePath
      then (let basename = path_Base localPath in path_Join [remotePath, basename])
      else remotePath)"

text \<open>\<open>put\<close>, lines 197 to 242. The connection \<open>c\<close> is used only at line 237, after the copy.\<close>

definition put ::
  "world \<Rightarrow> sftp_client option \<Rightarrow> ssh_client option \<Rightarrow> string \<Rightarrow> string \<Rightarrow> sys
     \<Rightarrow> error option outcome \<times> sys" where
  "put w sc0 c0 localPath remotePath0 s =
     (let remotePath = put_target localPath remotePath0 in
      case sc0 of
        None \<Rightarrow> (Panic, s)
      | Some sc \<Rightarrow>
         (let s1 = emit [RemoteStat (sc_id sc) remotePath] s;
              e = (case r_Stat (sc_remote sc) remotePath of Inl x \<Rightarrow> Some x | Inr fi \<Rightarrow> None) in
          if e = None \<and> \<not> Override (tr s)
          then (Return (Some RemoteFileExists), emit [Println ''Remote file exists''] s1)
          else
           (let s2 = emit [LocalOpen localPath] s1 in
            case os_Open w localPath of
              Inl e \<Rightarrow> (Return (Some e), s2)
            | Inr srcFile \<Rightarrow>
               (let s3 = emit [RemoteCreate (sc_id sc) remotePath] s2 in
                case r_OpenFile (sc_remote sc) remotePath of
                  Some e \<Rightarrow> (Return (Some e), s3)
                | None \<Rightarrow>
                   (let (sz, written) = copy_loop (f_reads srcFile) 0 [];
                        s4 = emit (map (RemoteWrite (sc_id sc) remotePath) written) s3 in
                    case c0 of
                      None \<Rightarrow> (Panic, s4)
                    | Some c \<Rightarrow>
                       (let ft = \<lparr>Source = localPath, Target = remotePath, Size = sz,
                                  Elapse = elapsed w (c_id c)\<rparr>
                        in (Return None, store_result (c_RemoteAddr c) ft s4)))))))"

section \<open>The batch\<close>

text \<open>
  The loops over \<^verbatim>\<open>t.SftpClient\<close> start one goroutine for each key and wait for all of
  them. The tasks share nothing but the result map, which each of them updates in one
  step under the lock, so a run of the batch is a run of the tasks one after the other in
  some order. That order, like the order in which Go visits the keys of a map, is not
  fixed: it is the argument \<open>ks\<close>, a list of the keys (an element that is not a key is
  passed over).

  A task that returns an error prints it: \<open>get_tasks\<close> prints the address of the peer
  before it (a nil connection panics there), \<open>put_tasks\<close> the error alone.
\<close>

fun get_tasks :: "world \<Rightarrow> string list \<Rightarrow> sys \<Rightarrow> unit outcome \<times> sys" where
  "get_tasks w [] s = (Return (), s)"
| "get_tasks w (h # hs) s =
     (case SftpClient (tr s) h of
        None \<Rightarrow> get_tasks w hs s
      | Some sc \<Rightarrow>
         (let c = Clients (tr s) h in
          case get w sc c (RemotePath (tr s)) (LocalPath (tr s)) s of
            (Return None, s1) \<Rightarrow> get_tasks w hs (emit [TaskDone h None] s1)
          | (Return (Some e), s1) \<Rightarrow>
             (case c of
                None \<Rightarrow> (Panic, s1)
              | Some cl \<Rightarrow>
                 get_tasks w hs
                   (emit [Println (c_RemoteAddr cl @ '' '' @ error_msg e), TaskDone h (Some e)] s1))
          | (Exit, s1) \<Rightarrow> (Exit, s1)
          | (Panic, s1) \<Rightarrow> (Panic, s1)))"

fun put_tasks :: "world \<Rightarrow> string list \<Rightarrow> sys \<Rightarrow> unit outcome \<times> sys" where
  "put_tasks w [] s = (Return (), s)"
| "put_tasks w (h # hs) s =
     (case SftpClient (tr s) h of
        None \<Rightarrow> put_tasks w hs s
      | Some sc \<Rightarrow>
         (let c = Clients (tr s) h in
          case put w sc c (LocalPath (tr s)) (RemotePath (tr s)) s of
            (Return None, s1) \<Rightarrow> put_tasks w hs (emit [TaskDone h None] s1)
          | (Return (Some e), s1) \<Rightarrow>
             put_tasks w hs (emit [Println (error_msg e), TaskDone h (Some e)] s1)
          | (Exit, s1) \<Rightarrow> (Exit, s1)
          | (Panic, s1) \<Rightarrow> (Panic, s1)))"

text \<open>
  \<open>batchGet\<close>, lines 90 to 116, and \<open>batchPut\<close>, lines 118 to 140. The result \<open>err\<close> is the
  variable that \<^verbatim>\<open>os.Stat\<close> and \<^verbatim>\<open>os.MkdirAll\<close> assign, and it is nil when the tasks are
  started.
\<close>

definition batchGet :: "world \<Rightarrow> string list \<Rightarrow> sys \<Rightarrow> error option outcome \<times> sys" where
  "batchGet w ks s =
     (let s1 = emit [LocalStat (LocalPath (tr s))] s;
          tasks = (\<lambda>s'. case get_tasks w ks s' of
                           (Return u, s2) \<Rightarrow> (Return None, s2)
                         | (Exit, s2) \<Rightarrow> (Exit, s2)
                         | (Panic, s2) \<Rightarrow> (Panic, s2)) in
      case os_Stat w (LocalPath (tr s)) of
        Inl e \<Rightarrow>
         (let s2 = emit [LocalMkdirAll (LocalPath (tr s))] s1 in
          case os_MkdirAll w (LocalPath (tr s)) of
            Some e' \<Rightarrow> (Return (Some e'), s2)
          | None \<Rightarrow> tasks s2)
      | Inr fi \<Rightarrow>
         if \<not> fi_IsDir fi then (Exit, emit [Fatalln ''Local path cannot be a file''] s1)
         else tasks s1)"

definition batchPut :: "world \<Rightarrow> string list \<Rightarrow> sys \<Rightarrow> error option outcome \<times> sys" where
  "batchPut w ks s =
     (let s1 = emit [LocalStat (LocalPath (tr s))] s in
      case os_Stat w (LocalPath (tr s)) of
        Inl e \<Rightarrow> (Return (Some e), s1)
      | Inr fi \<Rightarrow>
         if fi_IsDir fi then (Return (Some LocalIsDir), s1)
         else (case put_tasks w ks s1 of
                 (Return u, s2) \<Rightarrow> (Return None, s2)
               | (Exit, s2) \<Rightarrow> (Exit, s2)
               | (Panic, s2) \<Rightarrow> (Panic, s2)))"

section \<open>Connections\<close>

text \<open>
  The loop of \<open>initClient\<close>, lines 255 to 268: the hosts are dialled one after the other,
  and the first error is returned at once.
\<close>

definition with_port :: "world \<Rightarrow> string \<Rightarrow> string" where
  "with_port w h = (if CHR '':'' \<notin> set h then h @ '':'' @ Itoa (DefaultPort w) else h)"

fun dial_all :: "world \<Rightarrow> string list \<Rightarrow> sys \<Rightarrow> error option \<times> sys" where
  "dial_all w [] s = (None, s)"
| "dial_all w (h0 # hs) s =
     (let h = with_port w h0;
          s1 = emit [Dial h] s in
      case ssh_Dial w h of
        Inl e \<Rightarrow> (Some e, s1)
      | Inr p \<Rightarrow>
         (let i = conns s1;
              client = \<lparr>c_id = i, c_RemoteAddr = p_RemoteAddr p\<rparr>;
              s2 = s1\<lparr>tr := (tr s1)\<lparr>Clients := (Clients (tr s1))(h \<mapsto> client)\<rparr>,
                      trace := trace s1 @ [Connected i], conns := Suc i\<rparr> in
          case p_NewClient p of
            Inl e \<Rightarrow>
              (Some e, s2\<lparr>tr := (tr s2)\<lparr>SftpClient := (SftpClient (tr s2))(h \<mapsto> None)\<rparr>\<rparr>)
          | Inr r \<Rightarrow>
              dial_all w hs
                (s2\<lparr>tr := (tr s2)\<lparr>SftpClient :=
                          (SftpClient (tr s2))(h \<mapsto> Some \<lparr>sc_id = i, sc_remote = r\<rparr>)\<rparr>,
                    trace := trace s2 @ [SessionOpened i]\<rparr>)))"

definition initClient :: "world \<Rightarrow> sys \<Rightarrow> error option outcome \<times> sys" where
  "initClient w s =
     (case GetAuth w of
        Some e \<Rightarrow> (Exit, emit [Fatalln (error_msg e)] s)
      | None \<Rightarrow> (case dial_all w (Hosts (tr s)) s of (r, s') \<Rightarrow> (Return r, s')))"

text \<open>The deferred function of \<open>Start\<close>, lines 73 to 80. Closing a nil session panics.\<close>

fun close_sessions :: "string list \<Rightarrow> sys \<Rightarrow> unit outcome \<times> sys" where
  "close_sessions [] s = (Return (), s)"
| "close_sessions (h # hs) s =
     (case SftpClient (tr s) h of
        None \<Rightarrow> close_sessions hs s
      | Some None \<Rightarrow> (Panic, s)
      | Some (Some sc) \<Rightarrow> close_sessions hs (emit [SessionClosed (sc_id sc)] s))"

fun close_channels :: "string list \<Rightarrow> sys \<Rightarrow> sys" where
  "close_channels [] s = s"
| "close_channels (h # hs) s =
     (case Clients (tr s) h of
        None \<Rightarrow> close_channels hs s
      | Some c \<Rightarrow> close_channels hs (emit [ChannelClosed (c_id c)] s))"

definition close_all :: "string list \<Rightarrow> sys \<Rightarrow> unit outcome \<times> sys" where
  "close_all ks s =
     (case close_sessions ks s of
        (Return u, s1) \<Rightarrow> (Return (), close_channels ks s1)
      | (Exit, s1) \<Rightarrow> (Exit, s1)
      | (Panic, s1) \<Rightarrow> (Panic, s1))"

text \<open>
  \<open>Start\<close>, lines 68 to 88. The deferred function is registered after \<open>initClient\<close> has
  returned without error, and runs when \<open>Start\<close> returns; it does not run when the process
  exits or panics.
\<close>

definition Start :: "world \<Rightarrow> string list \<Rightarrow> sys \<Rightarrow> error option outcome \<times> sys" where
  "Start w ks s =
     (case initClient w s of
        (Exit, s1) \<Rightarrow> (Exit, s1)
      | (Panic, s1) \<Rightarrow> (Panic, s1)
      | (Return (Some e), s1) \<Rightarrow> (Return (Some e), s1)
      | (Return None, s1) \<Rightarrow>
         (case (if Method (tr s1) = TransferGet then batchGet w ks s1
                else if Method (tr s1) = TransferPut then batchPut w ks s1
                else (Return None, s1)) of
            (Exit, s2) \<Rightarrow> (Exit, s2)
          | (Panic, s2) \<Rightarrow> (Panic, s2)
          | (Return r, s2) \<Rightarrow>
             (case close_all ks s2 of
                (Return u, s3) \<Rightarrow> (Return r, s3)
              | (Exit, s3) \<Rightarrow> (Exit, s3)
              | (Panic, s3) \<Rightarrow> (Panic, s3))))"

section \<open>Printing the results\<close>

text \<open>
  The verb \<^verbatim>\<open>%21s\<close>: the string, with spaces before it up to a width of 21. The width
  counts characters; the keys of the result map are addresses as a connection prints
  them, in ASCII, where a character is a byte.
\<close>

definition pad_left :: "nat \<Rightarrow> string \<Rightarrow> string" where
  "pad_left n x = replicate (n - length x) CHR '' '' @ x"

text \<open>
  \<open>PrettyPrint\<close>, lines 273 to 277: one call of \<^verbatim>\<open>Printf\<close> for each key of the result map,
  visited in the order \<open>ks\<close>. \<open>Elapse\<close> is a number of nanoseconds, and \<open>format_seconds\<close>
  stands for \<^verbatim>\<open>%.2f\<close> applied to \<^verbatim>\<open>Elapse.Seconds()\<close>. The line ends with a newline.
\<close>

definition result_line :: "world \<Rightarrow> string \<Rightarrow> FileTransfer \<Rightarrow> string" where
  "result_line w h ft =
     pad_left 21 h @ '': '' @ Source ft @ '' => '' @ Target ft @ '' '' @ Itoa (Size ft)
       @ ''Byte '' @ format_seconds w (Elapse ft) @ '' seconds'' @ [CHR 0x0A]"

fun PrettyPrint :: "world \<Rightarrow> string list \<Rightarrow> Transfer \<Rightarrow> string list" where
  "PrettyPrint w [] t = []"
| "PrettyPrint w (h # hs) t =
     (case TransferResult t h of
        None \<Rightarrow> PrettyPrint w hs t
      | Some ft \<Rightarrow> result_line w h ft # PrettyPrint w hs t)"

section \<open>Reading a run\<close>

text \<open>
  The properties below are stated on the events of a run: the hosts that were dialled, the
  keys whose task returned nil and those whose task returned an error, the connections
  and sessions that were opened and never closed, and the events that belong to a
  transfer (a call on a remote file system, or on a local file).
\<close>

fun dialled :: "event \<Rightarrow> string list" where
  "dialled (Dial h) = [h]"
| "dialled e = []"

definition dials :: "event list \<Rightarrow> string list" where
  "dials es = concat (map dialled es)"

fun done_ok :: "event \<Rightarrow> string list" where
  "done_ok (TaskDone h None) = [h]"
| "done_ok e = []"

definition completed :: "event list \<Rightarrow> string list" where
  "completed es = concat (map done_ok es)"

fun done_err :: "event \<Rightarrow> string list" where
  "done_err (TaskDone h (Some e)) = [h]"
| "done_err e = []"

definition failed :: "event list \<Rightarrow> string list" where
  "failed es = concat (map done_err es)"

fun connected :: "event \<Rightarrow> nat list" where
  "connected (Connected i) = [i]"
| "connected e = []"

fun session_opened :: "event \<Rightarrow> nat list" where
  "session_opened (SessionOpened i) = [i]"
| "session_opened e = []"

definition open_channels :: "event list \<Rightarrow> nat list" where
  "open_channels es = filter (\<lambda>i. ChannelClosed i \<notin> set es) (concat (map connected es))"

definition open_sessions :: "event list \<Rightarrow> nat list" where
  "open_sessions es = filter (\<lambda>i. SessionClosed i \<notin> set es) (concat (map session_opened es))"

fun transfer_event :: "event \<Rightarrow> bool" where
  "transfer_event (RemoteStat i p) = True"
| "transfer_event (RemoteOpen i p) = True"
| "transfer_event (RemoteCreate i p) = True"
| "transfer_event (RemoteWrite i p b) = True"
| "transfer_event (LocalOpen p) = True"
| "transfer_event (LocalCreate p) = True"
| "transfer_event (LocalWrite p b) = True"
| "transfer_event e = False"

fun closing_event :: "event \<Rightarrow> bool" where
  "closing_event (SessionClosed i) = True"
| "closing_event (ChannelClosed i) = True"
| "closing_event e = False"

text \<open>The arguments of the calls of \<^verbatim>\<open>Write\<close> in a run, in order.\<close>

fun written :: "event \<Rightarrow> bytes list" where
  "written (LocalWrite p b) = [b]"
| "written (RemoteWrite i p b) = [b]"
| "written e = []"

definition writes :: "event list \<Rightarrow> bytes list" where
  "writes es = concat (map written es)"

text \<open>The address of the peer behind a key of the pool, as the connection reports it.\<close>

definition peer_addr :: "Transfer \<Rightarrow> string \<Rightarrow> string" where
  "peer_addr t h = (case Clients t h of None \<Rightarrow> [] | Some c \<Rightarrow> c_RemoteAddr c)"

text \<open>The keys of the result map are the addresses of the hosts whose task returned nil.\<close>

definition counted :: "sys \<Rightarrow> bool" where
  "counted s =
     (dom (TransferResult (tr s)) = peer_addr (tr s) ` set (completed (trace s)))"

text \<open>
  The data that the copy loop gets from a file: the results of the reads before the first
  one that is empty. A file \<open>delivers\<close> when no read fails: its reads are not empty and
  give its content.
\<close>

definition readable :: "bytes list \<Rightarrow> bytes list" where
  "readable rs = takeWhile (\<lambda>r. r \<noteq> []) rs"

definition delivers :: "src_file \<Rightarrow> bool" where
  "delivers f = (concat (f_reads f) = f_content f \<and> [] \<notin> set (f_reads f))"

text \<open>An element of a path that \<^verbatim>\<open>path.Clean\<close> keeps as it is.\<close>

definition plain :: "string \<Rightarrow> bool" where
  "plain el = (el \<noteq> [] \<and> el \<noteq> ''.'' \<and> el \<noteq> ''..'' \<and> CHR ''/'' \<notin> set el)"

text \<open>
  The conditions under which the specification lets a fetch fail: the remote stat fails,
  the remote path is a directory, the remote size exceeds the maximum, or one of the two
  files cannot be opened.
\<close>

definition fetch_refused :: "world \<Rightarrow> sftp_client \<Rightarrow> ssh_client \<Rightarrow> string \<Rightarrow> string \<Rightarrow> bool" where
  "fetch_refused w sc c remotePath localPath =
     (case r_Stat (sc_remote sc) remotePath of
        Inl e \<Rightarrow> True
      | Inr fi \<Rightarrow>
          fi_IsDir fi \<or> fi_Size fi > TransferMaxSize w \<or> isl (r_Open (sc_remote sc) remotePath)
          \<or> os_Create w (path_Join [localPath,
                 dest_name (path_Base (fi_Name fi)) (c_RemoteAddr c)]) \<noteq> None)"

text \<open>
  The events with which the deferred function closes the pool, visiting the keys in the
  order \<open>ks\<close>; and the state of a pool in which every connection and every session that was
  opened is held under some key, no key holds a nil session, and the two maps have the
  same keys.
\<close>

definition session_closes :: "Transfer \<Rightarrow> string list \<Rightarrow> event list" where
  "session_closes t ks =
     concat (map (\<lambda>h. case SftpClient t h of
                          Some (Some sc) \<Rightarrow> [SessionClosed (sc_id sc)]
                        | _ \<Rightarrow> []) ks)"

definition channel_closes :: "Transfer \<Rightarrow> string list \<Rightarrow> event list" where
  "channel_closes t ks =
     concat (map (\<lambda>h. case Clients t h of
                          Some c \<Rightarrow> [ChannelClosed (c_id c)]
                        | None \<Rightarrow> []) ks)"

definition held :: "sys \<Rightarrow> bool" where
  "held s =
     ((\<forall>i\<in>set (concat (map connected (trace s))).
          \<exists>h c. Clients (tr s) h = Some c \<and> c_id c = i)
      \<and> (\<forall>i\<in>set (concat (map session_opened (trace s))).
          \<exists>h sc. SftpClient (tr s) h = Some (Some sc) \<and> sc_id sc = i)
      \<and> (\<forall>h. SftpClient (tr s) h \<noteq> Some None)
      \<and> dom (SftpClient (tr s)) = dom (Clients (tr s)))"

section \<open>An example installation\<close>

text \<open>
  Two hosts answer: \<^verbatim>\<open>10.0.0.1\<close> holds three files, \<^verbatim>\<open>10.0.0.2\<close> holds none; every other
  host refuses the connection. The file \<^verbatim>\<open>/data/cut.bin\<close> has two bytes, and its second
  read fails. Locally, \<^verbatim>\<open>out\<close> is a directory and \<^verbatim>\<open>motd\<close> a file of three bytes. Every
  transfer takes 1.5 ms, which \<^verbatim>\<open>%.2f\<close> prints as \<^verbatim>\<open>0.00\<close>.
\<close>

definition ex_file :: src_file where
  "ex_file = \<lparr>f_content = [1, 2, 3], f_reads = [[1, 2], [3]]\<rparr>"

definition ex_cut_file :: src_file where
  "ex_cut_file = \<lparr>f_content = [1, 2], f_reads = [[1], []]\<rparr>"

definition ex_remote :: remote where
  "ex_remote =
     \<lparr>r_Stat = (\<lambda>p. if p = ''/etc/motd''
                       then Inr \<lparr>fi_Name = ''motd'', fi_Size = 3, fi_IsDir = False\<rparr>
                     else if p = ''/var/log/app.log''
                       then Inr \<lparr>fi_Name = ''app.log'', fi_Size = 3, fi_IsDir = False\<rparr>
                     else if p = ''/data/cut.bin''
                       then Inr \<lparr>fi_Name = ''cut.bin'', fi_Size = 2, fi_IsDir = False\<rparr>
                     else Inl (Lib ''file does not exist'')),
      r_Open = (\<lambda>p. if p = ''/etc/motd'' \<or> p = ''/var/log/app.log'' then Inr ex_file
                     else if p = ''/data/cut.bin'' then Inr ex_cut_file
                     else Inl (Lib ''file does not exist'')),
      r_OpenFile = (\<lambda>p. None)\<rparr>"

definition ex_bare :: remote where
  "ex_bare =
     \<lparr>r_Stat = (\<lambda>p. Inl (Lib ''file does not exist'')),
      r_Open = (\<lambda>p. Inl (Lib ''file does not exist'')),
      r_OpenFile = (\<lambda>p. None)\<rparr>"

definition ex_world :: world where
  "ex_world =
     \<lparr>GetAuth = None, DefaultPort = 22, TransferMaxSize = TransferDefaultMaxSize,
      ssh_Dial = (\<lambda>h. if h = ''10.0.0.1:22''
                         then Inr \<lparr>p_RemoteAddr = ''10.0.0.1:22'', p_NewClient = Inr ex_remote\<rparr>
                       else if h = ''10.0.0.2:22''
                         then Inr \<lparr>p_RemoteAddr = ''10.0.0.2:22'', p_NewClient = Inr ex_bare\<rparr>
                       else Inl (Lib ''connection refused'')),
      os_Stat = (\<lambda>p. if p = ''out''
                        then Inr \<lparr>fi_Name = ''out'', fi_Size = 0, fi_IsDir = True\<rparr>
                      else if p = ''motd''
                        then Inr \<lparr>fi_Name = ''motd'', fi_Size = 3, fi_IsDir = False\<rparr>
                      else Inl (Lib ''no such file or directory'')),
      os_MkdirAll = (\<lambda>p. None),
      os_Create = (\<lambda>p. None),
      os_Open = (\<lambda>p. if p = ''motd'' then Inr ex_file
                      else Inl (Lib ''no such file or directory'')),
      elapsed = (\<lambda>i. 1500000),
      format_seconds = (\<lambda>d. ''0.00'')\<rparr>"

definition ex_hosts :: "string list" where
  "ex_hosts = [''10.0.0.1'', ''10.0.0.2:22'']"

definition ex_keys :: "string list" where
  "ex_keys = [''10.0.0.2:22'', ''10.0.0.1:22'']"

definition ex_session :: sftp_client where
  "ex_session = \<lparr>sc_id = 0, sc_remote = ex_remote\<rparr>"

definition ex_channel :: ssh_client where
  "ex_channel = \<lparr>c_id = 0, c_RemoteAddr = ''10.0.0.1:22''\<rparr>"

text \<open>A state in which the pool holds the first host, for a send of \<^verbatim>\<open>motd\<close> to \<^verbatim>\<open>/etc/\<close>.\<close>

definition ex_pool :: sys where
  "ex_pool =
     fresh ((NewTransfer ''PUT'' ''motd'' ''/etc/'' ex_hosts)
              \<lparr>Clients := [''10.0.0.1:22'' \<mapsto> ex_channel],
               SftpClient := [''10.0.0.1:22'' \<mapsto> Some ex_session]\<rparr>)"

text \<open>
  An installation in which the two names \<^verbatim>\<open>web\<close> and \<^verbatim>\<open>www\<close> lead to the same peer, and an
  outcome as a fetch of \<^verbatim>\<open>/etc/motd\<close> records it.
\<close>

definition ex_alias_world :: world where
  "ex_alias_world =
     ex_world\<lparr>ssh_Dial :=
        (\<lambda>h. if h = ''web:22'' \<or> h = ''www:22''
               then Inr \<lparr>p_RemoteAddr = ''10.0.0.1:22'', p_NewClient = Inr ex_remote\<rparr>
             else Inl (Lib ''connection refused''))\<rparr>"

definition ex_outcome :: FileTransfer where
  "ex_outcome = \<lparr>Source = ''/etc/motd'', Target = ''out/motd-10-0-0-1.'', Size = 3,
                  Elapse = 1500000\<rparr>"
section \<open>Splitting and joining\<close>

lemma split_on_nonempty: "split_on c s \<noteq> []"
  by (induction s) (auto split: list.splits)

lemma split_on_absent: "c \<notin> set s \<Longrightarrow> split_on c s = [s]"
  by (induction s) auto

lemma split_on_append: "split_on c (a @ c # b) = split_on c a @ split_on c b"
proof (induction a)
  case Nil
  show ?case by simp
next
  case (Cons x a)
  obtain y ys where "split_on c a = y # ys"
    using split_on_nonempty [of c a] by (cases "split_on c a") auto
  with Cons show ?case by simp
qed

lemma join_with_snoc:
  "join_with sep (xs @ [x]) = (if xs = [] then x else join_with sep xs @ sep @ x)"
  by (induction sep xs rule: join_with.induct) auto

lemma join_split: "join_with [c] (split_on c s) = s"
proof (induction s)
  case Nil
  show ?case by simp
next
  case (Cons x s)
  obtain y ys where ys: "split_on c s = y # ys"
    using split_on_nonempty [of c s] by (cases "split_on c s") auto
  show ?case
  proof (cases "x = c")
    case True
    with Cons ys show ?thesis by simp
  next
    case False
    with Cons ys show ?thesis by (cases ys) auto
  qed
qed

lemma hd_split_on: "c \<notin> set a \<Longrightarrow> hd (split_on c (a @ c # b)) = a"
  by (simp add: split_on_append split_on_absent)

lemma dest_name_ext:
  assumes "CHR ''.'' \<notin> set ext"
  shows "dest_name (stem @ ''.'' @ ext) addr =
           stem @ ''-'' @ replace_all CHR ''.'' CHR ''-'' (hd (split_on CHR '':'' addr)) @ ''.'' @ ext"
proof -
  have sp: "split_on CHR ''.'' (stem @ ''.'' @ ext) = split_on CHR ''.'' stem @ [ext]"
    using assms by (simp add: split_on_append split_on_absent)
  have ne: "split_on CHR ''.'' stem \<noteq> []" by (rule split_on_nonempty)
  then have len: "length (split_on CHR ''.'' stem) > 0" by simp
  show ?thesis
    unfolding dest_name_def Let_def sp
    using len by (simp add: nth_append join_split [of "CHR ''.''", simplified])
qed

lemma dest_name_no_ext:
  assumes "CHR ''.'' \<notin> set b"
  shows "dest_name b addr =
           b @ ''-'' @ replace_all CHR ''.'' CHR ''-'' (hd (split_on CHR '':'' addr)) @ ''.''"
  using assms by (simp add: dest_name_def split_on_absent)

section \<open>Clean paths\<close>

lemma clean_step_plain: "plain x \<Longrightarrow> clean_step r acc x = acc @ [x]"
  by (simp add: clean_step_def plain_def)

lemma clean_fold_plain: "\<forall>x\<in>set xs. plain x \<Longrightarrow> foldl (clean_step r) acc xs = acc @ xs"
  by (induction xs arbitrary: acc) (simp_all add: clean_step_plain)

lemma clean_step_empty: "clean_step r acc [] = acc"
  by (simp add: clean_step_def)

lemma split_join:
  "xs \<noteq> [] \<Longrightarrow> \<forall>x\<in>set xs. c \<notin> set x \<Longrightarrow> split_on c (join_with [c] xs) = xs"
proof (induction "[c]" xs rule: join_with.induct)
  case 1
  then show ?case by simp
next
  case (2 x)
  then show ?case by (simp add: split_on_absent)
next
  case (3 x y ys)
  then show ?case by (simp add: split_on_append split_on_absent)
qed

lemma hd_join_plain:
  "xs \<noteq> [] \<Longrightarrow> \<forall>x\<in>set xs. plain x \<Longrightarrow> join_with sep xs \<noteq> [] \<and> hd (join_with sep xs) \<noteq> CHR ''/''"
proof (induction sep xs rule: join_with.induct)
  case (1 sep)
  then show ?case by simp
next
  case (2 sep x)
  then show ?case by (cases x) (auto simp: plain_def)
next
  case (3 sep x y ys)
  then show ?case by (cases x) (auto simp: plain_def)
qed

lemma path_Clean_relative:
  assumes "xs \<noteq> []" and "\<forall>x\<in>set xs. plain x"
  shows "path_Clean (join_with ''/'' xs) = join_with ''/'' xs"
proof -
  have sl: "\<forall>x\<in>set xs. CHR ''/'' \<notin> set x" using assms(2) by (simp add: plain_def)
  have sp: "split_on CHR ''/'' (join_with ''/'' xs) = xs"
    using split_join [OF assms(1) sl] by simp
  have hd: "join_with ''/'' xs \<noteq> [] \<and> hd (join_with ''/'' xs) \<noteq> CHR ''/''"
    by (rule hd_join_plain [OF assms])
  show ?thesis
    using hd by (simp add: path_Clean_def sp clean_fold_plain [OF assms(2)])
qed

lemma path_Clean_rooted:
  assumes "\<forall>x\<in>set xs. plain x"
  shows "path_Clean (''/'' @ join_with ''/'' xs) = ''/'' @ join_with ''/'' xs"
proof (cases "xs = []")
  case True
  then show ?thesis by (simp add: path_Clean_def clean_step_def)
next
  case False
  have sl: "\<forall>x\<in>set xs. CHR ''/'' \<notin> set x" using assms by (simp add: plain_def)
  have sp: "split_on CHR ''/'' (join_with ''/'' xs) = xs"
    using split_join [OF False sl] by simp
  show ?thesis
    by (simp add: path_Clean_def sp clean_step_empty clean_fold_plain [OF assms])
qed

lemma concat_map_join:
  "concat (map (\<lambda>c. c @ sep) cs) @ b = join_with sep (cs @ [b])"
proof (induction cs)
  case Nil
  show ?case by simp
next
  case (Cons c cs)
  then show ?case by (cases "cs @ [b]") auto
qed

lemma fold_split_append:
  "foldl f acc (split_on c (a @ c # b)) = foldl f (foldl f acc (split_on c a)) (split_on c b)"
  by (simp add: split_on_append)

lemma path_Clean_double_slash:
  "path_Clean (r @ ''/'' @ ''/'' @ b) = path_Clean (r @ ''/'' @ b)"
proof -
  have hd: "hd (r @ ''/'' @ ''/'' @ b) = hd (r @ ''/'' @ b)" by (cases r) auto
  have "foldl (clean_step k) [] (split_on CHR ''/'' (r @ CHR ''/'' # CHR ''/'' # b))
        = foldl (clean_step k) [] (split_on CHR ''/'' (r @ CHR ''/'' # b))" for k
    by (simp add: split_on_append clean_step_empty)
  then show ?thesis using hd by (simp add: path_Clean_def)
qed

lemma path_Join_dir:
  assumes "has_slash_suffix rp"
  shows "path_Join [rp, b] = path_Clean (rp @ b)"
proof -
  from assms obtain r where r: "rp = r @ ''/''"
    unfolding has_slash_suffix_def by (metis append_butlast_last_id)
  have "path_Join [rp, b] = path_Clean (r @ ''/'' @ ''/'' @ b)"
    using r by (simp add: path_Join_def)
  also have "\<dots> = path_Clean (r @ ''/'' @ b)" by (rule path_Clean_double_slash)
  finally show ?thesis using r by simp
qed

lemma path_Base_suffix:
  assumes "CHR ''/'' \<notin> set n" and "n \<noteq> []" and "q = [] \<or> last q = CHR ''/''"
  shows "path_Base (q @ n) = n"
proof -
  have l: "last n \<noteq> CHR ''/''" using assms(1,2) by (metis last_in_set)
  obtain x xs where rn: "rev n = x # xs" using assms(2) by (cases "rev n") auto
  then have "x = last n" by (metis assms(2) hd_rev list.sel(1))
  with l have x: "x \<noteq> CHR ''/''" by simp
  have st: "strip_slashes (q @ n) = q @ n"
    unfolding strip_slashes_def using rn x by simp
  have tw: "takeWhile (\<lambda>c. c \<noteq> CHR ''/'') (rev n @ rev q) = rev n"
  proof (cases "q = []")
    case True
    then show ?thesis using assms(1) by (auto simp: takeWhile_eq_all_conv)
  next
    case False
    with assms(3) have "hd (rev q) = CHR ''/''" by (simp add: hd_rev)
    moreover have "rev q \<noteq> []" using False by simp
    ultimately have "takeWhile (\<lambda>c. c \<noteq> CHR ''/'') (rev q) = []"
      by (cases "rev q") auto
    moreover have "takeWhile (\<lambda>c. c \<noteq> CHR ''/'') (rev n @ rev q)
                     = rev n @ takeWhile (\<lambda>c. c \<noteq> CHR ''/'') (rev q)"
      by (rule takeWhile_append2) (use assms(1) in auto)
    ultimately show ?thesis by simp
  qed
  show ?thesis
    unfolding path_Base_def Let_def st last_element_def
    using assms(2) tw by simp
qed

lemma path_Join_plain_name:
  assumes "plain n"
  shows "path_Base (path_Join [d, n]) = n"
proof -
  have n1: "CHR ''/'' \<notin> set n" and n2: "n \<noteq> []" using assms by (simp_all add: plain_def)
  show ?thesis
  proof (cases "d = []")
    case True
    have "path_Join [d, n] = path_Clean (join_with ''/'' [n])"
      using True n2 by (simp add: path_Join_def)
    also have "\<dots> = n" using path_Clean_relative [of "[n]"] assms by simp
    finally show ?thesis using path_Base_suffix [OF n1 n2, of "[]"] by simp
  next
    case False
    define k where "k = (hd d = CHR ''/'')"
    define out where "out = foldl (clean_step k) [] (split_on CHR ''/'' d)"
    have hd: "hd (d @ CHR ''/'' # n) = hd d" using False by (cases d) auto
    have fo: "foldl (clean_step k) [] (split_on CHR ''/'' (d @ CHR ''/'' # n)) = out @ [n]"
      using n1 assms by (simp add: split_on_append split_on_absent out_def clean_step_plain)
    have "path_Join [d, n] = path_Clean (d @ CHR ''/'' # n)"
      using False by (simp add: path_Join_def)
    also have "\<dots> = (if k then ''/'' else []) @ join_with ''/'' (out @ [n])"
      using n2 by (simp add: path_Clean_def hd fo k_def [symmetric] join_with_snoc)
    also have "\<dots> = ((if k then ''/'' else []) @ (if out = [] then [] else join_with ''/'' out @ ''/'')) @ n"
      by (simp add: join_with_snoc)
    finally have "path_Join [d, n] = ((if k then ''/'' else []) @ (if out = [] then [] else join_with ''/'' out @ ''/'')) @ n" .
    then show ?thesis
      using path_Base_suffix [OF n1 n2, of "(if k then ''/'' else []) @ (if out = [] then [] else join_with ''/'' out @ ''/'')"]
      by simp
  qed
qed


section \<open>The result map after a run\<close>

lemma completed_append [simp]: "completed (xs @ ys) = completed xs @ completed ys"
  by (simp add: completed_def)

lemma completed_Nil [simp]: "completed [] = []"
  by (simp add: completed_def)

lemma completed_Cons [simp]: "completed (e # es) = done_ok e @ completed es"
  by (simp add: completed_def)

lemma completed_local_writes [simp]: "completed (map (LocalWrite p) ws) = []"
  by (induction ws) simp_all

lemma completed_remote_writes [simp]: "completed (map (RemoteWrite i p) ws) = []"
  by (induction ws) simp_all

text \<open>What a call of get does to the state.\<close>

lemma get_effect:
  assumes "get w sc0 c0 rp lp s = (r, s')"
  shows "Clients (tr s') = Clients (tr s) \<and> SftpClient (tr s') = SftpClient (tr s)
     \<and> RemotePath (tr s') = RemotePath (tr s) \<and> LocalPath (tr s') = LocalPath (tr s)
     \<and> Override (tr s') = Override (tr s)
     \<and> completed (trace s') = completed (trace s)
     \<and> (if r = Return None
         then \<exists>c ft. c0 = Some c \<and>
                TransferResult (tr s') = (TransferResult (tr s))(c_RemoteAddr c \<mapsto> ft)
         else TransferResult (tr s') = TransferResult (tr s))"
  using assms
  by (auto simp: get_def Let_def emit_def store_result_def
           split: option.splits sum.splits if_splits prod.splits)

lemma put_effect:
  assumes "put w sc0 c0 lp rp s = (r, s')"
  shows "Clients (tr s') = Clients (tr s) \<and> SftpClient (tr s') = SftpClient (tr s)
     \<and> RemotePath (tr s') = RemotePath (tr s) \<and> LocalPath (tr s') = LocalPath (tr s)
     \<and> Override (tr s') = Override (tr s)
     \<and> completed (trace s') = completed (trace s)
     \<and> (if r = Return None
         then \<exists>c ft. c0 = Some c \<and>
                TransferResult (tr s') = (TransferResult (tr s))(c_RemoteAddr c \<mapsto> ft)
         else TransferResult (tr s') = TransferResult (tr s))"
  using assms
  by (auto simp: put_def Let_def emit_def store_result_def
           split: option.splits sum.splits if_splits prod.splits)

lemma counted_step_ok:
  assumes "counted s" and "Clients (tr s) h = Some c"
      and "Clients (tr s1) = Clients (tr s)"
      and "TransferResult (tr s1) = (TransferResult (tr s))(c_RemoteAddr c \<mapsto> ft)"
      and "completed (trace s1) = completed (trace s)"
  shows "counted (emit [TaskDone h None] s1)"
  using assms by (auto simp: counted_def emit_def peer_addr_def)

lemma counted_step_quiet:
  assumes "counted s" and "Clients (tr s1) = Clients (tr s)"
      and "TransferResult (tr s1) = TransferResult (tr s)"
      and "completed (trace s1) = completed (trace s)"
  shows "counted s1"
  using assms by (simp add: counted_def peer_addr_def)

lemma get_tasks_counted:
  "counted s \<Longrightarrow> counted (snd (get_tasks w ks s))"
proof (induction ks arbitrary: s)
  case Nil
  then show ?case by simp
next
  case (Cons h hs)
  show ?case
  proof (cases "SftpClient (tr s) h")
    case None
    with Cons show ?thesis by simp
  next
    case (Some sc)
    obtain r s1 where g: "get w sc (Clients (tr s) h) (RemotePath (tr s)) (LocalPath (tr s)) s = (r, s1)"
      by (cases "get w sc (Clients (tr s) h) (RemotePath (tr s)) (LocalPath (tr s)) s") auto
    note eff = get_effect [OF g]
    show ?thesis
    proof (cases r)
      case (Return e)
      show ?thesis
      proof (cases e)
        case None
        with Return eff obtain c ft where c: "Clients (tr s) h = Some c"
          and ft: "TransferResult (tr s1) = (TransferResult (tr s))(c_RemoteAddr c \<mapsto> ft)"
          by auto
        have "counted (emit [TaskDone h None] s1)"
          using counted_step_ok [OF Cons.prems c _ ft] eff by simp
        then have "counted (snd (get_tasks w hs (emit [TaskDone h None] s1)))"
          by (rule Cons.IH)
        then show ?thesis using Some g Return None by simp
      next
        case (Some err)
        have q: "counted s1"
          using counted_step_quiet [OF Cons.prems] eff Return Some by simp
        show ?thesis
        proof (cases "Clients (tr s) h")
          case None
          then show ?thesis using \<open>SftpClient (tr s) h = Some sc\<close> g Return Some q by simp
        next
          case (Some cl)
          have "counted (emit [Println (c_RemoteAddr cl @ '' '' @ error_msg err), TaskDone h (Some err)] s1)"
            using q by (simp add: counted_def emit_def peer_addr_def)
          then have "counted (snd (get_tasks w hs (emit [Println (c_RemoteAddr cl @ '' '' @ error_msg err), TaskDone h (Some err)] s1)))"
            by (rule Cons.IH)
          then show ?thesis using \<open>SftpClient (tr s) h = Some sc\<close> g Return \<open>e = Some err\<close> Some by simp
        qed
      qed
    next
      case Exit
      have "counted s1" using counted_step_quiet [OF Cons.prems] eff Exit by simp
      then show ?thesis using Some g Exit by simp
    next
      case Panic
      have "counted s1" using counted_step_quiet [OF Cons.prems] eff Panic by simp
      then show ?thesis using Some g Panic by simp
    qed
  qed
qed


lemma put_tasks_counted:
  "counted s \<Longrightarrow> counted (snd (put_tasks w ks s))"
proof (induction ks arbitrary: s)
  case Nil
  then show ?case by simp
next
  case (Cons h hs)
  show ?case
  proof (cases "SftpClient (tr s) h")
    case None
    with Cons show ?thesis by simp
  next
    case (Some sc)
    obtain r s1 where g: "put w sc (Clients (tr s) h) (LocalPath (tr s)) (RemotePath (tr s)) s = (r, s1)"
      by (cases "put w sc (Clients (tr s) h) (LocalPath (tr s)) (RemotePath (tr s)) s") auto
    note eff = put_effect [OF g]
    show ?thesis
    proof (cases r)
      case (Return e)
      show ?thesis
      proof (cases e)
        case None
        with Return eff obtain c ft where c: "Clients (tr s) h = Some c"
          and ft: "TransferResult (tr s1) = (TransferResult (tr s))(c_RemoteAddr c \<mapsto> ft)"
          by auto
        have "counted (emit [TaskDone h None] s1)"
          using counted_step_ok [OF Cons.prems c _ ft] eff by simp
        then have "counted (snd (put_tasks w hs (emit [TaskDone h None] s1)))"
          by (rule Cons.IH)
        then show ?thesis using Some g Return None by simp
      next
        case (Some err)
        have q: "counted s1"
          using counted_step_quiet [OF Cons.prems] eff Return Some by simp
        have "counted (emit [Println (error_msg err), TaskDone h (Some err)] s1)"
          using q by (simp add: counted_def emit_def peer_addr_def)
        then have "counted (snd (put_tasks w hs (emit [Println (error_msg err), TaskDone h (Some err)] s1)))"
          by (rule Cons.IH)
        then show ?thesis using \<open>SftpClient (tr s) h = Some sc\<close> g Return Some by simp
      qed
    next
      case Exit
      have "counted s1" using counted_step_quiet [OF Cons.prems] eff Exit by simp
      then show ?thesis using Some g Exit by simp
    next
      case Panic
      have "counted s1" using counted_step_quiet [OF Cons.prems] eff Panic by simp
      then show ?thesis using Some g Panic by simp
    qed
  qed
qed

lemma counted_emit:
  "counted s \<Longrightarrow> completed es = [] \<Longrightarrow> counted (emit es s)"
  by (simp add: counted_def emit_def peer_addr_def)

lemma batchGet_counted:
  assumes "counted s"
  shows "counted (snd (batchGet w ks s))"
proof -
  have t: "counted (snd (case get_tasks w ks x of
                           (Return u, s2) \<Rightarrow> (Return None, s2)
                         | (Exit, s2) \<Rightarrow> (Exit, s2)
                         | (Panic, s2) \<Rightarrow> (Panic, s2)))" if "counted x" for x
    using get_tasks_counted [OF that, of w ks]
    by (auto split: prod.splits outcome.splits)
  show ?thesis
    unfolding batchGet_def Let_def
    using assms
    by (auto split: sum.splits option.splits intro!: t counted_emit)
qed

lemma batchPut_counted:
  assumes "counted s"
  shows "counted (snd (batchPut w ks s))"
proof -
  have t: "counted (snd (case put_tasks w ks x of
                           (Return u, s2) \<Rightarrow> (Return None, s2)
                         | (Exit, s2) \<Rightarrow> (Exit, s2)
                         | (Panic, s2) \<Rightarrow> (Panic, s2)))" if "counted x" for x
    using put_tasks_counted [OF that, of w ks]
    by (auto split: prod.splits outcome.splits)
  show ?thesis
    unfolding batchPut_def Let_def
    using assms
    by (auto split: sum.splits option.splits intro!: t counted_emit)
qed

lemma dial_all_quiet:
  "dial_all w hs s = (r, s') \<Longrightarrow>
     TransferResult (tr s') = TransferResult (tr s) \<and> completed (trace s') = completed (trace s)
     \<and> Method (tr s') = Method (tr s) \<and> LocalPath (tr s') = LocalPath (tr s)
     \<and> RemotePath (tr s') = RemotePath (tr s) \<and> Override (tr s') = Override (tr s)"
proof (induction hs arbitrary: s)
  case Nil
  then show ?case by simp
next
  case (Cons h hs)
  then show ?case
    by (auto simp: Let_def emit_def split: sum.splits)
qed

lemma initClient_quiet:
  "initClient w s = (r, s') \<Longrightarrow>
     TransferResult (tr s') = TransferResult (tr s) \<and> completed (trace s') = completed (trace s)
     \<and> Method (tr s') = Method (tr s) \<and> LocalPath (tr s') = LocalPath (tr s)
     \<and> RemotePath (tr s') = RemotePath (tr s) \<and> Override (tr s') = Override (tr s)"
  by (auto simp: initClient_def emit_def split: option.splits prod.splits dest: dial_all_quiet)

lemma close_sessions_quiet:
  "close_sessions ks s = (r, s') \<Longrightarrow> tr s' = tr s \<and> completed (trace s') = completed (trace s)"
  by (induction ks arbitrary: s) (auto simp: emit_def split: option.splits)

lemma close_channels_quiet:
  "tr (close_channels ks s) = tr s \<and> completed (trace (close_channels ks s)) = completed (trace s)"
  by (induction ks arbitrary: s) (auto simp: emit_def split: option.splits)

lemma close_all_quiet:
  "close_all ks s = (r, s') \<Longrightarrow> tr s' = tr s \<and> completed (trace s') = completed (trace s)"
  by (auto simp: close_all_def close_channels_quiet split: prod.splits outcome.splits
           dest: close_sessions_quiet)

lemma close_all_counted: "counted s \<Longrightarrow> counted (snd (close_all ks s))"
proof -
  assume c: "counted s"
  obtain r s' where e: "close_all ks s = (r, s')" by (cases "close_all ks s") auto
  from close_all_quiet [OF e] c show ?thesis by (simp add: e counted_def)
qed

lemma Start_counted:
  assumes "TransferResult (tr s) = Map.empty" and "completed (trace s) = []"
  shows "counted (snd (Start w ks s))"
proof -
  obtain r s1 where i: "initClient w s = (r, s1)" by (cases "initClient w s") auto
  from initClient_quiet [OF i] assms have c1: "counted s1"
    by (simp add: counted_def)
  define b where "b = (if Method (tr s1) = TransferGet then batchGet w ks s1
                else if Method (tr s1) = TransferPut then batchPut w ks s1
                else (Return None, s1))"
  have c2: "counted (snd b)"
    unfolding b_def using c1 by (simp add: batchGet_counted batchPut_counted)
  have c3: "counted (snd (close_all ks (snd b)))"
    using c2 by (rule close_all_counted)
  show ?thesis
    unfolding Start_def i
    using c1 c2 c3 unfolding b_def
    by (auto split: outcome.splits option.splits prod.splits)
qed
text \<open>
  Claim C2, amended. After a run of a new transfer (its result map is empty at the start),
  the keys of the result map are exactly the peer addresses of the hosts whose task
  returned without error. So the number of entries is the number of these addresses; it
  is the number of completed tasks when their addresses differ. A host whose task failed
  has no entry, unless its address is also that of a completed task. This holds however
  the run ends and in whatever order \<open>ks\<close> the tasks are run.
\<close>

theorem result_map_counts_completed_hosts:
  assumes "TransferResult t = Map.empty" and "s' = snd (Start w ks (fresh t))"
  shows "dom (TransferResult (tr s')) = peer_addr (tr s') ` set (completed (trace s'))
       \<and> card (dom (TransferResult (tr s')))
           = length (remdups (map (peer_addr (tr s')) (completed (trace s'))))
       \<and> (distinct (map (peer_addr (tr s')) (completed (trace s')))
            \<longrightarrow> card (dom (TransferResult (tr s'))) = length (completed (trace s')))
       \<and> (\<forall>h\<in>set (failed (trace s')).
             peer_addr (tr s') h \<notin> peer_addr (tr s') ` set (completed (trace s'))
               \<longrightarrow> TransferResult (tr s') (peer_addr (tr s') h) = None)"
proof -
  have "counted (snd (Start w ks (fresh t)))"
    by (rule Start_counted) (simp_all add: fresh_def assms(1))
  then have d: "dom (TransferResult (tr s')) = peer_addr (tr s') ` set (completed (trace s'))"
    using assms(2) by (simp add: counted_def)
  have c: "card (dom (TransferResult (tr s')))
             = length (remdups (map (peer_addr (tr s')) (completed (trace s'))))"
    by (simp add: d length_remdups_card_conv)
  have e: "card (dom (TransferResult (tr s'))) = length (completed (trace s'))"
    if "distinct (map (peer_addr (tr s')) (completed (trace s')))"
    using that c by (simp add: distinct_remdups_id)
  have f: "TransferResult (tr s') a = None"
    if "a \<notin> peer_addr (tr s') ` set (completed (trace s'))" for a
    using that d by blast
  show ?thesis using d c e f by blast
qed

text \<open>In the example, the fetch of \<^verbatim>\<open>/etc/motd\<close> succeeds on one host and fails on the other.\<close>

theorem result_map_counts_completed_hosts_witness:
  "TransferResult (NewTransfer ''GET'' ''out'' ''/etc/motd'' ex_hosts) = Map.empty
   \<and> completed (trace (snd (Start ex_world ex_keys
         (fresh (NewTransfer ''GET'' ''out'' ''/etc/motd'' ex_hosts))))) = [''10.0.0.1:22'']
   \<and> failed (trace (snd (Start ex_world ex_keys
         (fresh (NewTransfer ''GET'' ''out'' ''/etc/motd'' ex_hosts))))) = [''10.0.0.2:22'']
   \<and> card (dom (TransferResult (tr (snd (Start ex_world ex_keys
         (fresh (NewTransfer ''GET'' ''out'' ''/etc/motd'' ex_hosts))))))) = 1"
proof -
  define s' where "s' = snd (Start ex_world ex_keys
         (fresh (NewTransfer ''GET'' ''out'' ''/etc/motd'' ex_hosts)))"
  have h: "TransferResult (NewTransfer ''GET'' ''out'' ''/etc/motd'' ex_hosts) = Map.empty"
    by (simp add: NewTransfer_def)
  have c: "completed (trace s') = [''10.0.0.1:22'']"
    unfolding s'_def by code_simp
  have f: "failed (trace s') = [''10.0.0.2:22'']"
    unfolding s'_def by code_simp
  from result_map_counts_completed_hosts [OF h s'_def] c
  have "card (dom (TransferResult (tr s'))) = 1" by simp
  with h c f show ?thesis unfolding s'_def by simp
qed

text \<open>
  Claim C2 as stated fails: the hosts \<^verbatim>\<open>web\<close> and \<^verbatim>\<open>www\<close> reach the same peer, both tasks
  return without error, and the result map, whose key is the address of the peer, has one
  entry.
\<close>

theorem two_names_of_one_peer_share_an_entry:
  "fst (Start ex_alias_world [''web:22'', ''www:22'']
          (fresh (NewTransfer ''GET'' ''out'' ''/etc/motd'' [''web'', ''www''])))
     = Return None
   \<and> completed (trace (snd (Start ex_alias_world [''web:22'', ''www:22'']
          (fresh (NewTransfer ''GET'' ''out'' ''/etc/motd'' [''web'', ''www''])))))
     = [''web:22'', ''www:22'']
   \<and> failed (trace (snd (Start ex_alias_world [''web:22'', ''www:22'']
          (fresh (NewTransfer ''GET'' ''out'' ''/etc/motd'' [''web'', ''www''])))))
     = []
   \<and> dom (TransferResult (tr (snd (Start ex_alias_world [''web:22'', ''www:22'']
          (fresh (NewTransfer ''GET'' ''out'' ''/etc/motd'' [''web'', ''www''])))))) 
     = {''10.0.0.1:22''}
   \<and> card (dom (TransferResult (tr (snd (Start ex_alias_world [''web:22'', ''www:22'']
          (fresh (NewTransfer ''GET'' ''out'' ''/etc/motd'' [''web'', ''www'']))))))) 
     = 1
   \<and> card (dom (TransferResult (tr (snd (Start ex_alias_world [''web:22'', ''www:22'']
          (fresh (NewTransfer ''GET'' ''out'' ''/etc/motd'' [''web'', ''www'']))))))) 
     \<noteq> length (completed (trace (snd (Start ex_alias_world [''web:22'', ''www:22'']
          (fresh (NewTransfer ''GET'' ''out'' ''/etc/motd'' [''web'', ''www''])))))) "
proof -
  define s' where "s' = snd (Start ex_alias_world [''web:22'', ''www:22'']
          (fresh (NewTransfer ''GET'' ''out'' ''/etc/motd'' [''web'', ''www''])))"
  have r: "fst (Start ex_alias_world [''web:22'', ''www:22'']
          (fresh (NewTransfer ''GET'' ''out'' ''/etc/motd'' [''web'', ''www''])))
     = Return None"
    by code_simp
  have c: "completed (trace s') = [''web:22'', ''www:22'']"
    unfolding s'_def by code_simp
  have f: "failed (trace s') = []"
    unfolding s'_def by code_simp
  have p1: "peer_addr (tr s') ''web:22'' = ''10.0.0.1:22''"
    unfolding s'_def by code_simp
  have p2: "peer_addr (tr s') ''www:22'' = ''10.0.0.1:22''"
    unfolding s'_def by code_simp
  have "counted s'"
    unfolding s'_def by (rule Start_counted) (simp_all add: fresh_def NewTransfer_def)
  then have d: "dom (TransferResult (tr s')) = {''10.0.0.1:22''}"
    unfolding counted_def c by (simp add: p1 p2)
  have k: "card (dom (TransferResult (tr s'))) = 1"
    unfolding d by simp
  have n: "card (dom (TransferResult (tr s'))) \<noteq> length (completed (trace s'))"
    unfolding k c by simp
  from r c f d k n show ?thesis unfolding s'_def by (intro conjI)
qed
section \<open>The transfer of one host: what a fetch and a send do\<close>

lemma emit_emit: "emit es (emit ds s) = emit (ds @ es) s"
  by (simp add: emit_def)

lemma tr_emit [simp]: "tr (emit es s) = tr s"
  by (simp add: emit_def)

lemma trace_emit [simp]: "trace (emit es s) = trace s @ es"
  by (simp add: emit_def)

lemma get_ok_iff:
  "fst (get w (Some sc) (Some c) rp lp s) = Return None \<longleftrightarrow> \<not> fetch_refused w sc c rp lp"
  by (auto simp: get_def fetch_refused_def Let_def split: sum.splits option.splits prod.splits)

lemma get_error_iff:
  "(\<exists>e. fst (get w (Some sc) (Some c) rp lp s) = Return (Some e)) \<longleftrightarrow> fetch_refused w sc c rp lp"
  by (auto simp: get_def fetch_refused_def Let_def split: sum.splits option.splits prod.splits)

lemma get_refused_state:
  "fetch_refused w sc c rp lp \<Longrightarrow> tr (snd (get w (Some sc) (Some c) rp lp s)) = tr s"
  by (auto simp: get_def fetch_refused_def Let_def split: sum.splits option.splits prod.splits)

lemma get_tasks_refused:
  assumes "fetch_refused w sc c (RemotePath (tr s)) (LocalPath (tr s))"
      and "SftpClient (tr s) h = Some (Some sc)" and "Clients (tr s) h = Some c"
  shows "\<exists>s1. tr s1 = tr s \<and> get_tasks w (h # hs) s = get_tasks w hs s1"
proof -
  obtain r s0 where g: "get w (Some sc) (Some c) (RemotePath (tr s)) (LocalPath (tr s)) s = (r, s0)"
    by (cases "get w (Some sc) (Some c) (RemotePath (tr s)) (LocalPath (tr s)) s") auto
  from get_error_iff [of w sc c "RemotePath (tr s)" "LocalPath (tr s)" s] assms(1) g
  obtain e where r: "r = Return (Some e)" by auto
  from get_refused_state [OF assms(1), of s] g have t: "tr s0 = tr s" by simp
  show ?thesis
    using assms(2,3) g r t
    by (intro exI [of _ "emit [Println (c_RemoteAddr c @ '' '' @ error_msg e), TaskDone h (Some e)] s0"])
       simp
qed

text \<open>
  Claim C7. The task of a connected host in a fetch returns nil exactly when none of the
  failure conditions holds, and returns an error exactly when one of them holds: the
  remote stat fails, the remote path is a directory, the remote size is greater than the
  maximum, or one of the two files cannot be opened. The error stays with the host: the
  struct is unchanged and the batch goes on with the other keys. A file whose size is the
  maximum is not refused: when both files open, it is transferred and recorded.
\<close>

theorem fetch_fails_iff_refused:
  "(fst (get w (Some sc) (Some c) rp lp s) = Return None \<longleftrightarrow> \<not> fetch_refused w sc c rp lp)
   \<and> ((\<exists>e. fst (get w (Some sc) (Some c) rp lp s) = Return (Some e))
        \<longleftrightarrow> fetch_refused w sc c rp lp)
   \<and> (fetch_refused w sc c rp lp \<longrightarrow> tr (snd (get w (Some sc) (Some c) rp lp s)) = tr s)
   \<and> (fetch_refused w sc c rp lp \<and> rp = RemotePath (tr s) \<and> lp = LocalPath (tr s)
        \<and> SftpClient (tr s) h = Some (Some sc) \<and> Clients (tr s) h = Some c
       \<longrightarrow> (\<exists>s1. tr s1 = tr s \<and> get_tasks w (h # hs) s = get_tasks w hs s1))
   \<and> (r_Stat (sc_remote sc) rp = Inr fi \<and> \<not> fi_IsDir fi \<and> fi_Size fi = TransferMaxSize w
        \<and> r_Open (sc_remote sc) rp = Inr f
        \<and> os_Create w (path_Join [lp, dest_name (path_Base (fi_Name fi)) (c_RemoteAddr c)]) = None
       \<longrightarrow> fst (get w (Some sc) (Some c) rp lp s) = Return None
           \<and> TransferResult (tr (snd (get w (Some sc) (Some c) rp lp s))) (c_RemoteAddr c) \<noteq> None)"
proof -
  have last: "fst (get w (Some sc) (Some c) rp lp s) = Return None
           \<and> TransferResult (tr (snd (get w (Some sc) (Some c) rp lp s))) (c_RemoteAddr c) \<noteq> None"
    if "r_Stat (sc_remote sc) rp = Inr fi" "\<not> fi_IsDir fi" "fi_Size fi = TransferMaxSize w"
       "r_Open (sc_remote sc) rp = Inr f"
       "os_Create w (path_Join [lp, dest_name (path_Base (fi_Name fi)) (c_RemoteAddr c)]) = None"
    using that by (simp add: get_def Let_def store_result_def split: prod.splits)
  show ?thesis
    using get_ok_iff [of w sc c rp lp s] get_error_iff [of w sc c rp lp s]
          get_refused_state [of w sc c rp lp s] get_tasks_refused [of w sc c s h hs] last
    by blast
qed

text \<open>
  In the example, a file of three bytes is fetched under a maximum of three and refused
  under a maximum of two.
\<close>

theorem fetch_fails_iff_refused_witness:
  "r_Stat (sc_remote ex_session) ''/etc/motd'' = Inr \<lparr>fi_Name = ''motd'', fi_Size = 3, fi_IsDir = False\<rparr>
   \<and> fi_Size \<lparr>fi_Name = ''motd'', fi_Size = 3, fi_IsDir = False\<rparr> = TransferMaxSize (ex_world\<lparr>TransferMaxSize := 3\<rparr>)
   \<and> fst (get (ex_world\<lparr>TransferMaxSize := 3\<rparr>) (Some ex_session) (Some ex_channel) ''/etc/motd'' ''out''
             (fresh (NewTransfer ''GET'' ''out'' ''/etc/motd'' ex_hosts))) = Return None
   \<and> fetch_refused (ex_world\<lparr>TransferMaxSize := 2\<rparr>) ex_session ex_channel ''/etc/motd'' ''out''
   \<and> fst (get (ex_world\<lparr>TransferMaxSize := 2\<rparr>) (Some ex_session) (Some ex_channel) ''/etc/motd'' ''out''
             (fresh (NewTransfer ''GET'' ''out'' ''/etc/motd'' ex_hosts))) \<noteq> Return None"
proof -
  let ?fi = "\<lparr>fi_Name = ''motd'', fi_Size = 3, fi_IsDir = False\<rparr>"
  let ?s = "fresh (NewTransfer ''GET'' ''out'' ''/etc/motd'' ex_hosts)"
  have st: "r_Stat (sc_remote ex_session) ''/etc/motd'' = Inr ?fi"
    by (simp add: ex_session_def ex_remote_def)
  have op: "r_Open (sc_remote ex_session) ''/etc/motd'' = Inr ex_file"
    by (simp add: ex_session_def ex_remote_def)
  have sz: "fi_Size ?fi = TransferMaxSize (ex_world\<lparr>TransferMaxSize := 3\<rparr>)" by simp
  have cr: "os_Create (ex_world\<lparr>TransferMaxSize := 3\<rparr>)
              (path_Join [''out'', dest_name (path_Base (fi_Name ?fi)) (c_RemoteAddr ex_channel)]) = None"
    by (simp add: ex_world_def)
  have ok: "fst (get (ex_world\<lparr>TransferMaxSize := 3\<rparr>) (Some ex_session) (Some ex_channel) ''/etc/motd'' ''out'' ?s) = Return None"
    using fetch_fails_iff_refused [where w = "ex_world\<lparr>TransferMaxSize := 3\<rparr>"
            and sc = ex_session and c = ex_channel and rp = "''/etc/motd''" and lp = "''out''"
            and s = ?s and fi = ?fi and f = ex_file] st op sz cr
    by simp
  have rf: "fetch_refused (ex_world\<lparr>TransferMaxSize := 2\<rparr>) ex_session ex_channel ''/etc/motd'' ''out''"
    by (simp add: fetch_refused_def ex_session_def ex_remote_def)
  have no: "fst (get (ex_world\<lparr>TransferMaxSize := 2\<rparr>) (Some ex_session) (Some ex_channel) ''/etc/motd'' ''out'' ?s) \<noteq> Return None"
    using fetch_fails_iff_refused [where w = "ex_world\<lparr>TransferMaxSize := 2\<rparr>"
            and sc = ex_session and c = ex_channel and rp = "''/etc/motd''" and lp = "''out''"
            and s = ?s] rf
    by simp
  show ?thesis using st sz ok rf no by simp
qed

section \<open>Send\<close>

text \<open>
  Claim C5. In a send, when the stat of the remote target succeeds and the overwrite flag
  is not set, the task returns the error \<open>RemoteFileExists\<close>. Its only events are the stat
  and the printed message: the local file is not opened, the remote file is neither
  opened for writing nor written. The batch prints the error and goes on with the other
  keys, from a state whose struct is unchanged.
\<close>

theorem send_refuses_existing_target:
  assumes "r_Stat (sc_remote sc) (put_target lp rp) = Inr fi" and "\<not> Override (tr s)"
  shows "put w (Some sc) c lp rp s =
           (Return (Some RemoteFileExists),
            emit [RemoteStat (sc_id sc) (put_target lp rp), Println ''Remote file exists''] s)
       \<and> (SftpClient (tr s) h = Some (Some sc) \<and> Clients (tr s) h = c
            \<and> lp = LocalPath (tr s) \<and> rp = RemotePath (tr s)
          \<longrightarrow> put_tasks w (h # hs) s =
                put_tasks w hs
                  (emit [RemoteStat (sc_id sc) (put_target lp rp), Println ''Remote file exists'',
                         Println ''Remote file exists'', TaskDone h (Some RemoteFileExists)] s))"
proof -
  have p: "put w (Some sc) c lp rp s =
           (Return (Some RemoteFileExists),
            emit [RemoteStat (sc_id sc) (put_target lp rp), Println ''Remote file exists''] s)"
    using assms by (simp add: put_def Let_def emit_def)
  have t: "put_tasks w (h # hs) s =
                put_tasks w hs
                  (emit [RemoteStat (sc_id sc) (put_target lp rp), Println ''Remote file exists'',
                         Println ''Remote file exists'', TaskDone h (Some RemoteFileExists)] s)"
    if "SftpClient (tr s) h = Some (Some sc)" "Clients (tr s) h = c"
       "lp = LocalPath (tr s)" "rp = RemotePath (tr s)"
    using that p by (simp add: emit_def)
  show ?thesis using p t by blast
qed

text \<open>
  In the example, \<^verbatim>\<open>/etc/motd\<close> exists on the first host.
\<close>

theorem send_refuses_existing_target_witness:
  "r_Stat (sc_remote ex_session) (put_target ''motd'' ''/etc/'')
     = Inr \<lparr>fi_Name = ''motd'', fi_Size = 3, fi_IsDir = False\<rparr>
   \<and> \<not> Override (tr ex_pool)
   \<and> SftpClient (tr ex_pool) ''10.0.0.1:22'' = Some (Some ex_session)
   \<and> Clients (tr ex_pool) ''10.0.0.1:22'' = Some ex_channel
   \<and> ''motd'' = LocalPath (tr ex_pool) \<and> ''/etc/'' = RemotePath (tr ex_pool)
   \<and> put_tasks ex_world [''10.0.0.1:22''] ex_pool =
        (Return (),
         emit [RemoteStat 0 ''/etc/motd'', Println ''Remote file exists'',
               Println ''Remote file exists'', TaskDone ''10.0.0.1:22'' (Some RemoteFileExists)]
           ex_pool)"
proof -
  have tg: "put_target ''motd'' ''/etc/'' = ''/etc/motd''"
    by (simp add: put_target_def has_slash_suffix_def path_Base_def strip_slashes_def
          last_element_def path_Join_def path_Clean_def clean_step_def)
  have st: "r_Stat (sc_remote ex_session) (put_target ''motd'' ''/etc/'')
              = Inr \<lparr>fi_Name = ''motd'', fi_Size = 3, fi_IsDir = False\<rparr>"
    by (simp add: tg ex_session_def ex_remote_def)
  have ov: "\<not> Override (tr ex_pool)"
    by (simp add: ex_pool_def fresh_def NewTransfer_def)
  have pl: "SftpClient (tr ex_pool) ''10.0.0.1:22'' = Some (Some ex_session)"
           "Clients (tr ex_pool) ''10.0.0.1:22'' = Some ex_channel"
           "''motd'' = LocalPath (tr ex_pool)" "''/etc/'' = RemotePath (tr ex_pool)"
    by (simp_all add: ex_pool_def fresh_def NewTransfer_def)
  have id: "sc_id ex_session = 0" by (simp add: ex_session_def)
  note th = send_refuses_existing_target [OF st ov, where w = ex_world and c = "Some ex_channel"
         and h = "''10.0.0.1:22''" and hs = "[]"]
  have "put_tasks ex_world [''10.0.0.1:22''] ex_pool =
        put_tasks ex_world []
          (emit [RemoteStat (sc_id ex_session) (put_target ''motd'' ''/etc/''),
                 Println ''Remote file exists'', Println ''Remote file exists'',
                 TaskDone ''10.0.0.1:22'' (Some RemoteFileExists)] ex_pool)"
    using th pl by blast
  then have pt: "put_tasks ex_world [''10.0.0.1:22''] ex_pool =
        (Return (),
         emit [RemoteStat 0 ''/etc/motd'', Println ''Remote file exists'',
               Println ''Remote file exists'', TaskDone ''10.0.0.1:22'' (Some RemoteFileExists)]
           ex_pool)"
    by (simp only: tg id put_tasks.simps)
  from st ov pl pt show ?thesis by blast
qed

section \<open>The copy loop\<close>

lemma int64_id: "- (2 ^ 63) \<le> x \<Longrightarrow> x < 2 ^ 63 \<Longrightarrow> int64 x = x"
  by (simp add: int64_def)

lemma copy_loop_readable:
  assumes "0 \<le> sz" and "sz + int (length (concat (readable rs))) < 2 ^ 63"
  shows "copy_loop rs sz wr = (sz + int (length (concat (readable rs))), wr @ readable rs)"
  using assms
proof (induction rs arbitrary: sz wr)
  case Nil
  then show ?case by (simp add: readable_def)
next
  case (Cons r rs)
  show ?case
  proof (cases "r = []")
    case True
    then show ?thesis by (simp add: readable_def)
  next
    case False
    have rd: "readable (r # rs) = r # readable rs" using False by (simp add: readable_def)
    let ?sz = "sz + int (length r)"
    have b: "0 \<le> ?sz" "?sz + int (length (concat (readable rs))) < 2 ^ 63"
      using Cons.prems rd by simp_all
    then have "?sz < 2 ^ 63" by linarith
    with b(1) have i: "int64 ?sz = ?sz" by (intro int64_id) simp_all
    have "copy_loop (r # rs) sz wr = copy_loop rs ?sz (wr @ [r])"
      using False i by simp
    also have "\<dots> = (?sz + int (length (concat (readable rs))), (wr @ [r]) @ readable rs)"
      by (rule Cons.IH [OF b])
    finally show ?thesis by (simp add: rd)
  qed
qed

lemma readable_delivers: "delivers f \<Longrightarrow> readable (f_reads f) = f_reads f"
  by (auto simp: delivers_def readable_def takeWhile_eq_all_conv)

lemma writes_append [simp]: "writes (xs @ ys) = writes xs @ writes ys"
  by (simp add: writes_def)

lemma writes_simps [simp]: "writes [] = []" "writes (e # es) = written e @ writes es"
  by (simp_all add: writes_def)

lemma writes_local [simp]: "writes (map (LocalWrite p) ws) = ws"
  by (induction ws) simp_all

lemma writes_remote [simp]: "writes (map (RemoteWrite i p) ws) = ws"
  by (induction ws) simp_all

lemma get_copies:
  assumes "fst (get w (Some sc) (Some c) rp lp s) = Return None"
      and "r_Open (sc_remote sc) rp = Inr f"
      and "length (concat (readable (f_reads f))) < 2 ^ 63"
  shows "map_option Size (TransferResult (tr (snd (get w (Some sc) (Some c) rp lp s))) (c_RemoteAddr c))
           = Some (int (length (concat (readable (f_reads f)))))
       \<and> writes (trace (snd (get w (Some sc) (Some c) rp lp s)))
           = writes (trace s) @ readable (f_reads f)"
proof -
  have "int (length (concat (readable (f_reads f)))) < 2 ^ 63"
    using assms(3) by (metis of_nat_less_numeral_power_cancel_iff)
  then have cl: "copy_loop (f_reads f) 0 [] =
             (int (length (concat (readable (f_reads f)))), readable (f_reads f))"
    using copy_loop_readable [of 0 "f_reads f" "[]"] by simp
  show ?thesis
    using assms(1,2) cl
    by (auto simp: get_def Let_def store_result_def emit_def
             split: sum.splits option.splits if_splits)
qed

lemma put_copies:
  assumes "fst (put w (Some sc) (Some c) lp rp s) = Return None"
      and "os_Open w lp = Inr f"
      and "length (concat (readable (f_reads f))) < 2 ^ 63"
  shows "map_option Size (TransferResult (tr (snd (put w (Some sc) (Some c) lp rp s))) (c_RemoteAddr c))
           = Some (int (length (concat (readable (f_reads f)))))
       \<and> writes (trace (snd (put w (Some sc) (Some c) lp rp s)))
           = writes (trace s) @ readable (f_reads f)"
proof -
  have "int (length (concat (readable (f_reads f)))) < 2 ^ 63"
    using assms(3) by (metis of_nat_less_numeral_power_cancel_iff)
  then have cl: "copy_loop (f_reads f) 0 [] =
             (int (length (concat (readable (f_reads f)))), readable (f_reads f))"
    using copy_loop_readable [of 0 "f_reads f" "[]"] by simp
  show ?thesis
    using assms(1,2) cl
    by (auto simp: put_def Let_def store_result_def emit_def
             split: sum.splits option.splits if_splits)
qed

text \<open>
  Claim C6, amended. When a fetch or a send records an outcome, and the source gives
  less than \<open>2 ^ 63\<close> bytes, the recorded size is the number of bytes that the reads
  returned before the first read without data, and these bytes are what was passed to
  \<^verbatim>\<open>Write\<close>, in order. When no read fails (the file delivers), this is the size of the
  source file.
\<close>

theorem recorded_size_is_bytes_read:
  "(fst (get w (Some sc) (Some c) rp lp s) = Return None \<and> r_Open (sc_remote sc) rp = Inr f
      \<and> length (concat (readable (f_reads f))) < 2 ^ 63
    \<longrightarrow> map_option Size (TransferResult (tr (snd (get w (Some sc) (Some c) rp lp s))) (c_RemoteAddr c))
          = Some (int (length (concat (readable (f_reads f)))))
        \<and> writes (trace (snd (get w (Some sc) (Some c) rp lp s)))
          = writes (trace s) @ readable (f_reads f)
        \<and> (delivers f \<longrightarrow>
             map_option Size (TransferResult (tr (snd (get w (Some sc) (Some c) rp lp s))) (c_RemoteAddr c))
               = Some (int (length (f_content f)))
             \<and> concat (readable (f_reads f)) = f_content f))
   \<and> (fst (put w (Some sc) (Some c) lp rp s) = Return None \<and> os_Open w lp = Inr g
      \<and> length (concat (readable (f_reads g))) < 2 ^ 63
    \<longrightarrow> map_option Size (TransferResult (tr (snd (put w (Some sc) (Some c) lp rp s))) (c_RemoteAddr c))
          = Some (int (length (concat (readable (f_reads g)))))
        \<and> writes (trace (snd (put w (Some sc) (Some c) lp rp s)))
          = writes (trace s) @ readable (f_reads g)
        \<and> (delivers g \<longrightarrow>
             map_option Size (TransferResult (tr (snd (put w (Some sc) (Some c) lp rp s))) (c_RemoteAddr c))
               = Some (int (length (f_content g)))
             \<and> concat (readable (f_reads g)) = f_content g))"
proof -
  have d: "concat (readable (f_reads x)) = f_content x" if "delivers x" for x
    using that readable_delivers [OF that] by (simp add: delivers_def)
  show ?thesis
    using get_copies [of w sc c rp lp s f] put_copies [of w sc c lp rp s g] d [of f] d [of g]
    by (metis (no_types, lifting))
qed

text \<open>
  In the example, the three bytes of \<^verbatim>\<open>motd\<close> are fetched and sent.
\<close>

theorem recorded_size_is_bytes_read_witness:
  "fst (get ex_world (Some ex_session) (Some ex_channel) ''/etc/motd'' ''out'' ex_pool) = Return None
   \<and> r_Open (sc_remote ex_session) ''/etc/motd'' = Inr ex_file
   \<and> length (concat (readable (f_reads ex_file))) < 2 ^ 63
   \<and> delivers ex_file
   \<and> map_option Size (TransferResult (tr (snd (get ex_world (Some ex_session) (Some ex_channel)
         ''/etc/motd'' ''out'' ex_pool))) (c_RemoteAddr ex_channel)) = Some 3
   \<and> fst (put ex_world (Some ex_session) (Some ex_channel) ''motd'' ''/tmp/'' ex_pool) = Return None
   \<and> os_Open ex_world ''motd'' = Inr ex_file
   \<and> map_option Size (TransferResult (tr (snd (put ex_world (Some ex_session) (Some ex_channel)
         ''motd'' ''/tmp/'' ex_pool))) (c_RemoteAddr ex_channel)) = Some 3"
proof -
  have g: "fst (get ex_world (Some ex_session) (Some ex_channel) ''/etc/motd'' ''out'' ex_pool) = Return None"
    by code_simp
  have p: "fst (put ex_world (Some ex_session) (Some ex_channel) ''motd'' ''/tmp/'' ex_pool) = Return None"
    by code_simp
  have o: "r_Open (sc_remote ex_session) ''/etc/motd'' = Inr ex_file"
    by (simp add: ex_session_def ex_remote_def)
  have l: "os_Open ex_world ''motd'' = Inr ex_file"
    by (simp add: ex_world_def)
  have n: "length (concat (readable (f_reads ex_file))) < 2 ^ 63"
    by (simp add: ex_file_def readable_def)
  have d: "delivers ex_file"
    by (simp add: delivers_def ex_file_def)
  have c: "int (length (f_content ex_file)) = 3"
    by (simp add: ex_file_def)
  note th = recorded_size_is_bytes_read [where w = ex_world and sc = ex_session and c = ex_channel
      and s = ex_pool and f = ex_file and g = ex_file]
  have a: "map_option Size (TransferResult (tr (snd (get ex_world (Some ex_session) (Some ex_channel)
         ''/etc/motd'' ''out'' ex_pool))) (c_RemoteAddr ex_channel)) = Some 3"
    using th [where rp = "''/etc/motd''" and lp = "''out''"] g o n d c by simp
  have b: "map_option Size (TransferResult (tr (snd (put ex_world (Some ex_session) (Some ex_channel)
         ''motd'' ''/tmp/'' ex_pool))) (c_RemoteAddr ex_channel)) = Some 3"
    using th [where rp = "''/tmp/''" and lp = "''motd''"] p l n d c by simp
  from g o n d a p l b show ?thesis by blast
qed

text \<open>
  Claim C6 as stated fails: the file \<^verbatim>\<open>/data/cut.bin\<close> has two bytes, its second read
  fails, and the fetch records an outcome of one byte.
\<close>

theorem truncated_fetch_is_recorded:
  "fst (get ex_world (Some ex_session) (Some ex_channel) ''/data/cut.bin'' ''out'' ex_pool) = Return None
   \<and> r_Open (sc_remote ex_session) ''/data/cut.bin'' = Inr ex_cut_file
   \<and> int (length (f_content ex_cut_file)) = 2
   \<and> map_option Size (TransferResult (tr (snd (get ex_world (Some ex_session) (Some ex_channel)
         ''/data/cut.bin'' ''out'' ex_pool))) ''10.0.0.1:22'') = Some 1"
  by code_simp

lemma dest_name_has_dash: "CHR ''-'' \<in> set (dest_name b addr)"
  by (simp add: dest_name_def Let_def split: prod.splits)

lemma dest_name_plain:
  assumes "CHR ''/'' \<notin> set b" and "CHR ''/'' \<notin> set (hd (split_on CHR '':'' addr))"
  shows "plain (dest_name b addr)"
proof -
  let ?x = "replace_all CHR ''.'' CHR ''-'' (hd (split_on CHR '':'' addr))"
  have x: "CHR ''/'' \<notin> set ?x" using assms(2) by (auto simp: replace_all_def)
  have sl: "CHR ''/'' \<notin> set (dest_name b addr)"
  proof (cases "CHR ''.'' \<in> set b")
    case True
    then obtain st e where b: "b = st @ CHR ''.'' # e" and e: "CHR ''.'' \<notin> set e"
      by (meson split_list_last)
    have "dest_name b addr = st @ ''-'' @ ?x @ ''.'' @ e"
      using dest_name_ext [OF e, of st addr] b by simp
    then show ?thesis using assms(1) b x by auto
  next
    case False
    then show ?thesis using dest_name_no_ext [OF False, of addr] assms(1) x by auto
  qed
  have d: "CHR ''-'' \<in> set (dest_name b addr)" by (rule dest_name_has_dash)
  then have "dest_name b addr \<noteq> []" "dest_name b addr \<noteq> ''.''" "dest_name b addr \<noteq> ''..''"
    by auto
  with sl show ?thesis by (simp add: plain_def)
qed

text \<open>
  Claim C1, amended. A fetch that succeeds creates and records the path
  \<^verbatim>\<open>path.Join(localPath, name)\<close>, where \<open>name\<close> is built from the base name \<open>b\<close> of the
  remote file and the address \<^verbatim>\<open>ip:port\<close> of the peer: it is \<^verbatim>\<open>stem-ip.ext\<close> with the dots
  of \<open>ip\<close> replaced by dashes when \<open>b\<close> is \<^verbatim>\<open>stem.ext\<close> with no dot in \<open>ext\<close>, and it is
  \<^verbatim>\<open>b-ip.\<close>, ending with the dot, when \<open>b\<close> has no dot. When neither \<open>b\<close> nor \<open>ip\<close> has
  a slash, \<open>name\<close> is the last element of the path that is created.
\<close>

theorem fetched_file_name:
  assumes "fst (get w (Some sc) (Some c) rp lp s) = Return None"
      and "r_Stat (sc_remote sc) rp = Inr fi" and "b = path_Base (fi_Name fi)"
      and "c_RemoteAddr c = ip @ '':'' @ port" and "CHR '':'' \<notin> set ip"
  shows "map_option Target (TransferResult (tr (snd (get w (Some sc) (Some c) rp lp s))) (c_RemoteAddr c))
           = Some (path_Join [lp, dest_name b (c_RemoteAddr c)])
       \<and> LocalCreate (path_Join [lp, dest_name b (c_RemoteAddr c)])
           \<in> set (trace (snd (get w (Some sc) (Some c) rp lp s)))
       \<and> (b = stem @ ''.'' @ ext \<and> CHR ''.'' \<notin> set ext
            \<longrightarrow> dest_name b (c_RemoteAddr c)
                  = stem @ ''-'' @ replace_all CHR ''.'' CHR ''-'' ip @ ''.'' @ ext)
       \<and> (CHR ''.'' \<notin> set b
            \<longrightarrow> dest_name b (c_RemoteAddr c) = b @ ''-'' @ replace_all CHR ''.'' CHR ''-'' ip @ ''.'')
       \<and> (CHR ''/'' \<notin> set b \<and> CHR ''/'' \<notin> set ip
            \<longrightarrow> path_Base (path_Join [lp, dest_name b (c_RemoteAddr c)]) = dest_name b (c_RemoteAddr c))"
proof -
  have hd: "hd (split_on CHR '':'' (c_RemoteAddr c)) = ip"
    using hd_split_on [OF assms(5), of port] assms(4) by simp
  have t: "map_option Target (TransferResult (tr (snd (get w (Some sc) (Some c) rp lp s))) (c_RemoteAddr c))
           = Some (path_Join [lp, dest_name b (c_RemoteAddr c)])
       \<and> LocalCreate (path_Join [lp, dest_name b (c_RemoteAddr c)])
           \<in> set (trace (snd (get w (Some sc) (Some c) rp lp s)))"
    using assms(1,2,3)
    by (auto simp: get_def Let_def store_result_def emit_def
             split: sum.splits option.splits if_splits prod.splits)
  have e: "dest_name b (c_RemoteAddr c) = stem @ ''-'' @ replace_all CHR ''.'' CHR ''-'' ip @ ''.'' @ ext"
    if "b = stem @ ''.'' @ ext" "CHR ''.'' \<notin> set ext"
    using dest_name_ext [OF that(2), of stem "c_RemoteAddr c"] that(1) hd by simp
  have n: "dest_name b (c_RemoteAddr c) = b @ ''-'' @ replace_all CHR ''.'' CHR ''-'' ip @ ''.''"
    if "CHR ''.'' \<notin> set b"
    using dest_name_no_ext [OF that, of "c_RemoteAddr c"] hd by simp
  have p: "path_Base (path_Join [lp, dest_name b (c_RemoteAddr c)]) = dest_name b (c_RemoteAddr c)"
    if "CHR ''/'' \<notin> set b" "CHR ''/'' \<notin> set ip"
    using that hd by (intro path_Join_plain_name dest_name_plain) simp_all
  show ?thesis using t e n p by blast
qed

text \<open>
  In the example, \<^verbatim>\<open>/var/log/app.log\<close> is stored as \<^verbatim>\<open>app-10-0-0-1.log\<close>.
\<close>

theorem fetched_file_name_witness:
  "fst (get ex_world (Some ex_session) (Some ex_channel) ''/var/log/app.log'' ''out'' ex_pool) = Return None
   \<and> r_Stat (sc_remote ex_session) ''/var/log/app.log''
        = Inr \<lparr>fi_Name = ''app.log'', fi_Size = 3, fi_IsDir = False\<rparr>
   \<and> ''app.log'' = path_Base (fi_Name \<lparr>fi_Name = ''app.log'', fi_Size = 3, fi_IsDir = False\<rparr>)
   \<and> c_RemoteAddr ex_channel = ''10.0.0.1'' @ '':'' @ ''22'' \<and> CHR '':'' \<notin> set ''10.0.0.1''
   \<and> ''app.log'' = ''app'' @ ''.'' @ ''log'' \<and> CHR ''.'' \<notin> set ''log''
   \<and> CHR ''/'' \<notin> set ''app.log'' \<and> CHR ''/'' \<notin> set ''10.0.0.1''
   \<and> map_option Target (TransferResult (tr (snd (get ex_world (Some ex_session) (Some ex_channel)
         ''/var/log/app.log'' ''out'' ex_pool))) (c_RemoteAddr ex_channel))
        = Some (path_Join [''out'', ''app-10-0-0-1.log''])
   \<and> path_Base (path_Join [''out'', ''app-10-0-0-1.log'']) = ''app-10-0-0-1.log''"
proof -
  let ?fi = "\<lparr>fi_Name = ''app.log'', fi_Size = 3, fi_IsDir = False\<rparr>"
  have g: "fst (get ex_world (Some ex_session) (Some ex_channel) ''/var/log/app.log'' ''out'' ex_pool) = Return None"
    by code_simp
  have st: "r_Stat (sc_remote ex_session) ''/var/log/app.log'' = Inr ?fi"
    by (simp add: ex_session_def ex_remote_def)
  have b: "''app.log'' = path_Base (fi_Name ?fi)"
    by (simp add: path_Base_def strip_slashes_def last_element_def)
  have a: "c_RemoteAddr ex_channel = ''10.0.0.1'' @ '':'' @ ''22''"
    by (simp add: ex_channel_def)
  have i: "CHR '':'' \<notin> set ''10.0.0.1''" by simp
  have e1a: "''app.log'' = ''app'' @ ''.'' @ ''log''" by simp
  have e1b: "CHR ''.'' \<notin> set ''log''" by simp
  have e2a: "CHR ''/'' \<notin> set ''app.log''" by simp
  have e2b: "CHR ''/'' \<notin> set ''10.0.0.1''" by simp
  note e1 = conjI [OF e1a e1b] and e2 = conjI [OF e2a e2b]
  have r: "replace_all CHR ''.'' CHR ''-'' ''10.0.0.1'' = ''10-0-0-1''"
    by (simp add: replace_all_def)
  note th = fetched_file_name [OF g st b a i, where stem = "''app''" and ext = "''log''"]
  have n0: "dest_name ''app.log'' (c_RemoteAddr ex_channel)
             = ''app'' @ ''-'' @ replace_all CHR ''.'' CHR ''-'' ''10.0.0.1'' @ ''.'' @ ''log''"
    using th [THEN conjunct2, THEN conjunct2, THEN conjunct1] e1 by (rule mp)
  have n: "dest_name ''app.log'' (c_RemoteAddr ex_channel) = ''app-10-0-0-1.log''"
    unfolding n0 r by simp
  have t: "map_option Target (TransferResult (tr (snd (get ex_world (Some ex_session) (Some ex_channel)
         ''/var/log/app.log'' ''out'' ex_pool))) (c_RemoteAddr ex_channel))
        = Some (path_Join [''out'', ''app-10-0-0-1.log''])"
    using th [THEN conjunct1] unfolding n .
  have p: "path_Base (path_Join [''out'', ''app-10-0-0-1.log'']) = ''app-10-0-0-1.log''"
    using th [THEN conjunct2, THEN conjunct2, THEN conjunct2, THEN conjunct2] e2 unfolding n
    by (rule mp)
  from g st b a i e1a e1b e2a e2b t p show ?thesis by (intro conjI)
qed

text \<open>
  Claim C1 as stated fails: the remote file \<^verbatim>\<open>motd\<close> has no extension, and it is stored
  under a name that ends with the separator.
\<close>

theorem fetched_name_keeps_trailing_separator:
  "fst (get ex_world (Some ex_session) (Some ex_channel) ''/etc/motd'' ''out'' ex_pool) = Return None
   \<and> r_Stat (sc_remote ex_session) ''/etc/motd''
        = Inr \<lparr>fi_Name = ''motd'', fi_Size = 3, fi_IsDir = False\<rparr>
   \<and> map_option Target (TransferResult (tr (snd (get ex_world (Some ex_session) (Some ex_channel)
         ''/etc/motd'' ''out'' ex_pool))) ''10.0.0.1:22'') = Some ''out/motd-10-0-0-1.''
   \<and> map_option Target (TransferResult (tr (snd (get ex_world (Some ex_session) (Some ex_channel)
         ''/etc/motd'' ''out'' ex_pool))) ''10.0.0.1:22'') \<noteq> Some ''out/motd-10-0-0-1''"
proof -
  have g: "fst (get ex_world (Some ex_session) (Some ex_channel) ''/etc/motd'' ''out'' ex_pool) = Return None"
    by code_simp
  have st: "r_Stat (sc_remote ex_session) ''/etc/motd''
        = Inr \<lparr>fi_Name = ''motd'', fi_Size = 3, fi_IsDir = False\<rparr>"
    by (simp add: ex_session_def ex_remote_def)
  have t: "map_option Target (TransferResult (tr (snd (get ex_world (Some ex_session) (Some ex_channel)
         ''/etc/motd'' ''out'' ex_pool))) ''10.0.0.1:22'') = Some ''out/motd-10-0-0-1.''"
    by code_simp
  have d: "map_option Target (TransferResult (tr (snd (get ex_world (Some ex_session) (Some ex_channel)
         ''/etc/motd'' ''out'' ex_pool))) ''10.0.0.1:22'') \<noteq> Some ''out/motd-10-0-0-1''"
    unfolding t by simp
  from g st t d show ?thesis by (intro conjI)
qed

section \<open>The target of a send\<close>

lemma dir_has_slash_suffix:
  assumes "rp = pre @ concat (map (\<lambda>el. el @ ''/'') els)" and "pre = [] \<and> els \<noteq> [] \<or> pre = ''/''"
  shows "has_slash_suffix rp"
proof (cases "els = []")
  case True
  with assms show ?thesis by (auto simp: has_slash_suffix_def)
next
  case False
  then obtain xs x where "els = xs @ [x]" by (metis rev_exhaust)
  with assms(1) show ?thesis by (simp add: has_slash_suffix_def)
qed

lemma put_target_clean_dir:
  assumes "rp = pre @ concat (map (\<lambda>el. el @ ''/'') els)" and "pre = [] \<and> els \<noteq> [] \<or> pre = ''/''"
      and "\<forall>el\<in>set els. plain el" and "plain (path_Base lp)"
  shows "put_target lp rp = rp @ path_Base lp"
proof -
  let ?b = "path_Base lp"
  have sfx: "has_slash_suffix rp" by (rule dir_has_slash_suffix [OF assms(1,2)])
  have pl: "\<forall>x\<in>set (els @ [?b]). plain x" using assms(3,4) by simp
  have j: "rp @ ?b = pre @ join_with ''/'' (els @ [?b])"
    using assms(1) concat_map_join [of "''/''" els ?b] by simp
  have "put_target lp rp = path_Clean (rp @ ?b)"
    using sfx by (simp add: put_target_def path_Join_dir)
  also have "\<dots> = path_Clean (pre @ join_with ''/'' (els @ [?b]))" by (simp only: j)
  also have "\<dots> = pre @ join_with ''/'' (els @ [?b])"
  proof (cases "pre = []")
    case True
    then show ?thesis using path_Clean_relative [OF _ pl] by simp
  next
    case False
    with assms(2) have "pre = ''/''" by simp
    then show ?thesis using path_Clean_rooted [OF pl] by simp
  qed
  finally show ?thesis by (simp only: j)
qed

lemma put_records_target:
  assumes "fst (put w (Some sc) (Some c) lp rp s) = Return None"
  shows "map_option Target (TransferResult (tr (snd (put w (Some sc) (Some c) lp rp s))) (c_RemoteAddr c))
           = Some (put_target lp rp)
       \<and> RemoteCreate (sc_id sc) (put_target lp rp) \<in> set (trace (snd (put w (Some sc) (Some c) lp rp s)))"
  using assms
  by (auto simp: put_def Let_def store_result_def emit_def
           split: sum.splits option.splits if_splits prod.splits)

text \<open>
  Claim C8, amended. When the remote path ends with a slash, the target of the send is
  the cleaned form (\<^verbatim>\<open>path.Clean\<close>) of that path with the base name of the local file
  appended; it is that path with the base name appended, as it is, when the path is a
  sequence of plain elements, each followed by a slash, rooted or not. A remote path that
  does not end with a slash is the target unchanged. The target is the path that a
  successful send opens for writing and records.
\<close>

theorem send_target:
  "(has_slash_suffix rp \<longrightarrow> put_target lp rp = path_Clean (rp @ path_Base lp))
   \<and> (rp = pre @ concat (map (\<lambda>el. el @ ''/'') els) \<and> (pre = [] \<and> els \<noteq> [] \<or> pre = ''/'')
        \<and> (\<forall>el\<in>set els. plain el) \<and> plain (path_Base lp)
       \<longrightarrow> put_target lp rp = rp @ path_Base lp)
   \<and> (\<not> has_slash_suffix rp \<longrightarrow> put_target lp rp = rp)
   \<and> (fst (put w (Some sc) (Some c) lp rp s) = Return None
       \<longrightarrow> map_option Target (TransferResult (tr (snd (put w (Some sc) (Some c) lp rp s))) (c_RemoteAddr c))
             = Some (put_target lp rp)
           \<and> RemoteCreate (sc_id sc) (put_target lp rp)
               \<in> set (trace (snd (put w (Some sc) (Some c) lp rp s))))"
proof (intro conjI impI)
  assume "has_slash_suffix rp"
  then show "put_target lp rp = path_Clean (rp @ path_Base lp)"
    by (simp add: put_target_def path_Join_dir)
next
  assume "rp = pre @ concat (map (\<lambda>el. el @ ''/'') els) \<and> (pre = [] \<and> els \<noteq> [] \<or> pre = ''/'')
        \<and> (\<forall>el\<in>set els. plain el) \<and> plain (path_Base lp)"
  then show "put_target lp rp = rp @ path_Base lp"
    using put_target_clean_dir [of rp pre els lp] by blast
next
  assume "\<not> has_slash_suffix rp"
  then show "put_target lp rp = rp" by (simp add: put_target_def)
next
  assume a: "fst (put w (Some sc) (Some c) lp rp s) = Return None"
  show "map_option Target (TransferResult (tr (snd (put w (Some sc) (Some c) lp rp s))) (c_RemoteAddr c))
             = Some (put_target lp rp)"
    using put_records_target [OF a] by simp
  show "RemoteCreate (sc_id sc) (put_target lp rp)
               \<in> set (trace (snd (put w (Some sc) (Some c) lp rp s)))"
    using put_records_target [OF a] by simp
qed

text \<open>
  In the example, a send of \<^verbatim>\<open>motd\<close> to \<^verbatim>\<open>/tmp/\<close> writes \<^verbatim>\<open>/tmp/motd\<close>, and a send to
  \<^verbatim>\<open>/tmp/copy\<close> writes \<^verbatim>\<open>/tmp/copy\<close>.
\<close>

theorem send_target_witness:
  "has_slash_suffix ''/tmp/''
   \<and> ''/tmp/'' = ''/'' @ concat (map (\<lambda>el. el @ ''/'') [''tmp''])
   \<and> plain ''tmp'' \<and> plain (path_Base ''motd'')
   \<and> put_target ''motd'' ''/tmp/'' = ''/tmp/motd''
   \<and> \<not> has_slash_suffix ''/tmp/copy''
   \<and> put_target ''motd'' ''/tmp/copy'' = ''/tmp/copy''
   \<and> fst (put ex_world (Some ex_session) (Some ex_channel) ''motd'' ''/tmp/'' ex_pool) = Return None
   \<and> map_option Target (TransferResult (tr (snd (put ex_world (Some ex_session) (Some ex_channel)
          ''motd'' ''/tmp/'' ex_pool))) (c_RemoteAddr ex_channel)) = Some ''/tmp/motd''"
proof -
  have s1: "has_slash_suffix ''/tmp/''" by (simp add: has_slash_suffix_def)
  have d: "''/tmp/'' = ''/'' @ concat (map (\<lambda>el. el @ ''/'') [''tmp''])" by simp
  have b: "path_Base ''motd'' = ''motd''"
    by (simp add: path_Base_def strip_slashes_def last_element_def)
  have p0: "plain ''tmp''" by (simp add: plain_def)
  then have p1: "\<forall>el\<in>set [''tmp'']. plain el" by simp
  have p2: "plain (path_Base ''motd'')" by (simp add: b plain_def)
  have s2: "\<not> has_slash_suffix ''/tmp/copy''" by (simp add: has_slash_suffix_def)
  have g: "fst (put ex_world (Some ex_session) (Some ex_channel) ''motd'' ''/tmp/'' ex_pool) = Return None"
    by code_simp
  note th = send_target [where lp = "''motd''" and w = ex_world and sc = ex_session
      and c = ex_channel and s = ex_pool]
  have "put_target ''motd'' ''/tmp/'' = ''/tmp/'' @ path_Base ''motd''"
    using th [where rp = "''/tmp/''" and pre = "''/''" and els = "[''tmp'']",
              THEN conjunct2, THEN conjunct1] d p1 p2
    by blast
  then have t1: "put_target ''motd'' ''/tmp/'' = ''/tmp/motd''" by (simp add: b)
  have t2: "put_target ''motd'' ''/tmp/copy'' = ''/tmp/copy''"
    using th [where rp = "''/tmp/copy''", THEN conjunct2, THEN conjunct2, THEN conjunct1] s2
    by (rule mp)
  have "map_option Target (TransferResult (tr (snd (put ex_world (Some ex_session) (Some ex_channel)
          ''motd'' ''/tmp/'' ex_pool))) (c_RemoteAddr ex_channel)) = Some (put_target ''motd'' ''/tmp/'')"
    using th [where rp = "''/tmp/''", THEN conjunct2, THEN conjunct2, THEN conjunct2] g
    by simp
  then have t3: "map_option Target (TransferResult (tr (snd (put ex_world (Some ex_session) (Some ex_channel)
          ''motd'' ''/tmp/'' ex_pool))) (c_RemoteAddr ex_channel)) = Some ''/tmp/motd''"
    by (simp only: t1)
  from s1 d p0 p2 t1 s2 t2 g t3 show ?thesis by (intro conjI)
qed

text \<open>
  Claim C8 as stated fails when the remote path is not clean: a send to \<^verbatim>\<open>/srv/www/../\<close>
  writes \<^verbatim>\<open>/srv/motd\<close>, not \<^verbatim>\<open>/srv/www/../motd\<close>, and a send to \<^verbatim>\<open>./\<close> writes
  \<^verbatim>\<open>motd\<close>.
\<close>

theorem send_target_is_cleaned:
  "has_slash_suffix ''/srv/www/../''
   \<and> path_Base ''motd'' = ''motd''
   \<and> put_target ''motd'' ''/srv/www/../'' = ''/srv/motd''
   \<and> put_target ''motd'' ''/srv/www/../'' \<noteq> ''/srv/www/../'' @ path_Base ''motd''
   \<and> has_slash_suffix ''./''
   \<and> put_target ''motd'' ''./'' = ''motd''
   \<and> put_target ''motd'' ''./'' \<noteq> ''./'' @ path_Base ''motd''"
proof -
  have s1: "has_slash_suffix ''/srv/www/../''" by (simp add: has_slash_suffix_def)
  have s2: "has_slash_suffix ''./''" by (simp add: has_slash_suffix_def)
  have b: "path_Base ''motd'' = ''motd''"
    by (simp add: path_Base_def strip_slashes_def last_element_def)
  have t1: "put_target ''motd'' ''/srv/www/../'' = ''/srv/motd''"
    by (simp add: put_target_def s1 b path_Join_def path_Clean_def clean_step_def)
  have t2: "put_target ''motd'' ''./'' = ''motd''"
    by (simp add: put_target_def s2 b path_Join_def path_Clean_def clean_step_def)
  have n1: "put_target ''motd'' ''/srv/www/../'' \<noteq> ''/srv/www/../'' @ path_Base ''motd''"
    unfolding t1 b by simp
  have n2: "put_target ''motd'' ''./'' \<noteq> ''./'' @ path_Base ''motd''"
    unfolding t2 b by simp
  from s1 b t1 n1 s2 t2 n2 show ?thesis by (intro conjI)
qed

section \<open>Connecting and closing\<close>

lemma dials_append [simp]: "dials (xs @ ys) = dials xs @ dials ys"
  by (simp add: dials_def)

lemma dials_simps [simp]: "dials [] = []" "dials (e # es) = dialled e @ dials es"
  by (simp_all add: dials_def)

lemma dial_all_trace:
  "dial_all w hs s = (None, s1) \<Longrightarrow>
     dials (trace s1) = dials (trace s) @ map (with_port w) hs
     \<and> length (concat (map connected (trace s1)))
         = length (concat (map connected (trace s))) + length hs
     \<and> Hosts (tr s1) = Hosts (tr s)"
proof (induction hs arbitrary: s)
  case Nil
  then show ?case by simp
next
  case (Cons h hs)
  then show ?case
    by (auto simp: Let_def emit_def split: sum.splits)
qed

lemma dial_all_events:
  "dial_all w hs s = (r, s1) \<Longrightarrow>
     filter transfer_event (trace s1) = filter transfer_event (trace s)
     \<and> filter closing_event (trace s1) = filter closing_event (trace s)"
proof (induction hs arbitrary: s)
  case Nil
  then show ?case by simp
next
  case (Cons h hs)
  then show ?case
    by (auto simp: Let_def emit_def split: sum.splits)
qed

lemma initClient_events:
  "initClient w s = (r, s1) \<Longrightarrow>
     filter transfer_event (trace s1) = filter transfer_event (trace s)
     \<and> filter closing_event (trace s1) = filter closing_event (trace s)"
  by (auto simp: initClient_def emit_def split: option.splits prod.splits dest: dial_all_events)

lemma initClient_trace:
  "initClient w s = (Return None, s1) \<Longrightarrow>
     dials (trace s1) = dials (trace s) @ map (with_port w) (Hosts (tr s))
     \<and> length (concat (map connected (trace s1)))
         = length (concat (map connected (trace s))) + length (Hosts (tr s))"
  by (auto simp: initClient_def split: option.splits prod.splits dest: dial_all_trace)

lemma Start_abort:
  "initClient w s = (Return (Some e), s1) \<Longrightarrow> Start w ks s = (Return (Some e), s1)"
  by (simp add: Start_def)

lemma no_close_all_open:
  "filter closing_event es = [] \<Longrightarrow>
     open_channels es = concat (map connected es) \<and> open_sessions es = concat (map session_opened es)"
proof -
  assume a: "filter closing_event es = []"
  have "ChannelClosed i \<notin> set es" for i
  proof
    assume "ChannelClosed i \<in> set es"
    then have "ChannelClosed i \<in> set (filter closing_event es)" by simp
    with a show False by simp
  qed
  moreover have "SessionClosed i \<notin> set es" for i
  proof
    assume "SessionClosed i \<in> set es"
    then have "SessionClosed i \<in> set (filter closing_event es)" by simp
    with a show False by simp
  qed
  ultimately show ?thesis by (simp add: open_channels_def open_sessions_def)
qed

text \<open>When the connections fail, nothing that was opened is closed.\<close>

lemma abort_closes_nothing:
  assumes "initClient w (fresh t) = (Return (Some e), s1)"
  shows "Start w ks (fresh t) = (Return (Some e), s1)
       \<and> open_channels (trace s1) = concat (map connected (trace s1))
       \<and> open_sessions (trace s1) = concat (map session_opened (trace s1))"
proof -
  have "filter closing_event (trace s1) = []"
    using initClient_events [OF assms] by (simp add: fresh_def)
  then show ?thesis using Start_abort [OF assms] no_close_all_open by blast
qed

text \<open>
  Claim C3 fails on the code. With two hosts, the first of which connects and the second
  of which refuses, \<open>Start\<close> returns the error of the dial and attempts no transfer, but the
  connection and the session of the first host are still open: \<open>Start\<close> returns before
  the function that closes them is deferred.
\<close>

theorem abort_leaves_connections_open:
  "fst (Start ex_world ex_keys (fresh (NewTransfer ''GET'' ''out'' ''/etc/motd''
          [''10.0.0.1'', ''10.0.0.3''])))
     = Return (Some (Lib ''connection refused''))
   \<and> trace (snd (Start ex_world ex_keys (fresh (NewTransfer ''GET'' ''out'' ''/etc/motd''
          [''10.0.0.1'', ''10.0.0.3'']))))
     = [Dial ''10.0.0.1:22'', Connected 0, SessionOpened 0, Dial ''10.0.0.3:22'']
   \<and> open_channels (trace (snd (Start ex_world ex_keys (fresh (NewTransfer ''GET'' ''out''
          ''/etc/motd'' [''10.0.0.1'', ''10.0.0.3''])))))
     = [0]
   \<and> open_sessions (trace (snd (Start ex_world ex_keys (fresh (NewTransfer ''GET'' ''out''
          ''/etc/motd'' [''10.0.0.1'', ''10.0.0.3''])))))
     = [0]"
proof -
  let ?s = "snd (Start ex_world ex_keys (fresh (NewTransfer ''GET'' ''out'' ''/etc/motd''
          [''10.0.0.1'', ''10.0.0.3''])))"
  have r: "fst (Start ex_world ex_keys (fresh (NewTransfer ''GET'' ''out'' ''/etc/motd''
          [''10.0.0.1'', ''10.0.0.3''])))
     = Return (Some (Lib ''connection refused''))"
    by code_simp
  have t: "trace ?s = [Dial ''10.0.0.1:22'', Connected 0, SessionOpened 0, Dial ''10.0.0.3:22'']"
    by code_simp
  have c: "open_channels (trace ?s) = [0]"
    unfolding t by (simp add: open_channels_def)
  have o: "open_sessions (trace ?s) = [0]"
    unfolding t by (simp add: open_sessions_def)
  from r t c o show ?thesis by (intro conjI)
qed

text \<open>
  Claim C4, amended. In a fetch whose local path is an existing file that is not a
  directory, \<open>Start\<close> first dials every host; when all connections are made, the process
  exits at the check of the local path, after the local stat and the fatal message only:
  no transfer is attempted and the result map is unchanged. When a connection fails,
  \<open>Start\<close> returns that error instead.
\<close>

theorem fetch_into_file_exits_after_connecting:
  assumes "Method (tr s) = TransferGet" and "os_Stat w (LocalPath (tr s)) = Inr fi"
      and "\<not> fi_IsDir fi"
  shows "(initClient w s = (Return None, s1) \<longrightarrow>
            Start w ks s = (Exit, emit [LocalStat (LocalPath (tr s)),
                                        Fatalln ''Local path cannot be a file''] s1)
          \<and> dials (trace s1) = dials (trace s) @ map (with_port w) (Hosts (tr s))
          \<and> filter transfer_event (trace s1) = filter transfer_event (trace s)
          \<and> TransferResult (tr s1) = TransferResult (tr s))
       \<and> (initClient w s = (Return (Some e), s1) \<longrightarrow> Start w ks s = (Return (Some e), s1))"
proof (intro conjI impI)
  assume i: "initClient w s = (Return None, s1)"
  note q = initClient_quiet [OF i]
  show "Start w ks s = (Exit, emit [LocalStat (LocalPath (tr s)),
                                        Fatalln ''Local path cannot be a file''] s1)"
    using assms q by (simp add: Start_def i batchGet_def Let_def emit_def)
  show "dials (trace s1) = dials (trace s) @ map (with_port w) (Hosts (tr s))"
    using initClient_trace [OF i] by simp
  show "filter transfer_event (trace s1) = filter transfer_event (trace s)"
    using initClient_events [OF i] by simp
  show "TransferResult (tr s1) = TransferResult (tr s)"
    using q by simp
next
  assume "initClient w s = (Return (Some e), s1)"
  then show "Start w ks s = (Return (Some e), s1)" by (rule Start_abort)
qed

text \<open>
  In the example, \<^verbatim>\<open>motd\<close> is a local file and both hosts are dialled.
\<close>

theorem fetch_into_file_exits_after_connecting_witness:
  "Method (tr (fresh (NewTransfer ''GET'' ''motd'' ''/etc/motd'' ex_hosts))) = TransferGet
   \<and> os_Stat ex_world (LocalPath (tr (fresh (NewTransfer ''GET'' ''motd'' ''/etc/motd'' ex_hosts))))
        = Inr \<lparr>fi_Name = ''motd'', fi_Size = 3, fi_IsDir = False\<rparr>
   \<and> \<not> fi_IsDir \<lparr>fi_Name = ''motd'', fi_Size = 3, fi_IsDir = False\<rparr>
   \<and> fst (initClient ex_world (fresh (NewTransfer ''GET'' ''motd'' ''/etc/motd'' ex_hosts))) = Return None
   \<and> fst (Start ex_world ex_keys (fresh (NewTransfer ''GET'' ''motd'' ''/etc/motd'' ex_hosts))) = Exit
   \<and> dials (trace (snd (initClient ex_world (fresh (NewTransfer ''GET'' ''motd'' ''/etc/motd'' ex_hosts)))))
        = map (with_port ex_world) ex_hosts"
proof -
  let ?s = "fresh (NewTransfer ''GET'' ''motd'' ''/etc/motd'' ex_hosts)"
  let ?fi = "\<lparr>fi_Name = ''motd'', fi_Size = 3, fi_IsDir = False\<rparr>"
  have m: "Method (tr ?s) = TransferGet"
    by (simp add: fresh_def NewTransfer_def TransferGet_def)
  have st: "os_Stat ex_world (LocalPath (tr ?s)) = Inr ?fi"
    by (simp add: fresh_def NewTransfer_def ex_world_def)
  have d: "\<not> fi_IsDir ?fi" by simp
  have f: "fst (initClient ex_world ?s) = Return None" by code_simp
  have i: "initClient ex_world ?s = (Return None, snd (initClient ex_world ?s))"
    using f prod.collapse [of "initClient ex_world ?s"] by simp
  note th = fetch_into_file_exits_after_connecting [OF m st d, where ks = ex_keys
      and ?s1.0 = "snd (initClient ex_world ?s)", THEN conjunct1, THEN mp, OF i]
  have e: "fst (Start ex_world ex_keys ?s) = Exit"
    using th [THEN conjunct1] by simp
  have h: "Hosts (tr ?s) = ex_hosts" by (simp add: fresh_def NewTransfer_def)
  have t: "dials (trace ?s) = []" by (simp add: fresh_def)
  have l: "dials (trace (snd (initClient ex_world ?s))) = map (with_port ex_world) ex_hosts"
    using th [THEN conjunct2, THEN conjunct1] unfolding h t by simp
  from m st d f e l show ?thesis by (intro conjI)
qed

text \<open>
  Claim C4 as stated fails: the fetch into the local file \<^verbatim>\<open>motd\<close> exits, and both hosts
  have been dialled before.
\<close>

theorem fetch_into_file_dials_first:
  "os_Stat ex_world ''motd'' = Inr \<lparr>fi_Name = ''motd'', fi_Size = 3, fi_IsDir = False\<rparr>
   \<and> fst (Start ex_world ex_keys (fresh (NewTransfer ''GET'' ''motd'' ''/etc/motd'' ex_hosts))) = Exit
   \<and> dials (trace (snd (Start ex_world ex_keys
        (fresh (NewTransfer ''GET'' ''motd'' ''/etc/motd'' ex_hosts)))))
       = [''10.0.0.1:22'', ''10.0.0.2:22'']
   \<and> dials (trace (snd (Start ex_world ex_keys
        (fresh (NewTransfer ''GET'' ''motd'' ''/etc/motd'' ex_hosts))))) \<noteq> []"
proof -
  have st: "os_Stat ex_world ''motd'' = Inr \<lparr>fi_Name = ''motd'', fi_Size = 3, fi_IsDir = False\<rparr>"
    by (simp add: ex_world_def)
  have e: "fst (Start ex_world ex_keys (fresh (NewTransfer ''GET'' ''motd'' ''/etc/motd'' ex_hosts))) = Exit"
    by code_simp
  have d: "dials (trace (snd (Start ex_world ex_keys
        (fresh (NewTransfer ''GET'' ''motd'' ''/etc/motd'' ex_hosts)))))
       = [''10.0.0.1:22'', ''10.0.0.2:22'']"
    by code_simp
  have n: "dials (trace (snd (Start ex_world ex_keys
        (fresh (NewTransfer ''GET'' ''motd'' ''/etc/motd'' ex_hosts))))) \<noteq> []"
    unfolding d by simp
  from st e d n show ?thesis by (intro conjI)
qed

section \<open>Closing the pool\<close>

lemma close_sessions_emit:
  "\<forall>h. SftpClient (tr s) h \<noteq> Some None \<Longrightarrow>
     close_sessions ks s = (Return (), emit (session_closes (tr s) ks) s)"
proof (induction ks arbitrary: s)
  case Nil
  then show ?case by (simp add: session_closes_def emit_def)
next
  case (Cons h hs)
  show ?case
  proof (cases "SftpClient (tr s) h")
    case None
    with Cons show ?thesis by (simp add: session_closes_def)
  next
    case (Some x)
    with Cons.prems obtain sc where x: "x = Some sc" by (cases x) auto
    have "close_sessions hs (emit [SessionClosed (sc_id sc)] s)
            = (Return (), emit (session_closes (tr s) hs) (emit [SessionClosed (sc_id sc)] s))"
      using Cons.IH [of "emit [SessionClosed (sc_id sc)] s"] Cons.prems by (simp add: emit_def)
    then show ?thesis using Some x by (simp add: session_closes_def emit_def)
  qed
qed

lemma close_channels_emit:
  "close_channels ks s = emit (channel_closes (tr s) ks) s"
proof (induction ks arbitrary: s)
  case Nil
  then show ?case by (simp add: channel_closes_def emit_def)
next
  case (Cons h hs)
  show ?case
  proof (cases "Clients (tr s) h")
    case None
    with Cons show ?thesis by (simp add: channel_closes_def)
  next
    case (Some c)
    have "close_channels hs (emit [ChannelClosed (c_id c)] s)
            = emit (channel_closes (tr s) hs) (emit [ChannelClosed (c_id c)] s)"
      using Cons.IH [of "emit [ChannelClosed (c_id c)] s"] by (simp add: emit_def)
    then show ?thesis using Some by (simp add: channel_closes_def emit_def)
  qed
qed

lemma close_all_emit:
  "\<forall>h. SftpClient (tr s) h \<noteq> Some None \<Longrightarrow>
     close_all ks s = (Return (), emit (session_closes (tr s) ks @ channel_closes (tr s) ks) s)"
  by (simp add: close_all_def close_sessions_emit close_channels_emit emit_def)

lemma session_closes_events:
  "filter transfer_event (session_closes t ks) = []
   \<and> concat (map connected (session_closes t ks)) = []
   \<and> concat (map session_opened (session_closes t ks)) = []
   \<and> dials (session_closes t ks) = []"
  by (induction ks) (auto simp: session_closes_def split: option.splits)

lemma channel_closes_events:
  "filter transfer_event (channel_closes t ks) = []
   \<and> concat (map connected (channel_closes t ks)) = []
   \<and> concat (map session_opened (channel_closes t ks)) = []
   \<and> dials (channel_closes t ks) = []"
  by (induction ks) (auto simp: channel_closes_def split: option.splits)

lemma session_closes_covers:
  "h \<in> set ks \<Longrightarrow> SftpClient t h = Some (Some sc) \<Longrightarrow> SessionClosed (sc_id sc) \<in> set (session_closes t ks)"
  by (induction ks) (auto simp: session_closes_def)

lemma channel_closes_covers:
  "h \<in> set ks \<Longrightarrow> Clients t h = Some c \<Longrightarrow> ChannelClosed (c_id c) \<in> set (channel_closes t ks)"
  by (induction ks) (auto simp: channel_closes_def)

lemma held_closed:
  assumes "held s" and "dom (Clients (tr s)) \<subseteq> set ks"
  shows "open_channels (trace s @ session_closes (tr s) ks @ channel_closes (tr s) ks) = []
       \<and> open_sessions (trace s @ session_closes (tr s) ks @ channel_closes (tr s) ks) = []"
proof -
  let ?es = "trace s @ session_closes (tr s) ks @ channel_closes (tr s) ks"
  have c: "concat (map connected ?es) = concat (map connected (trace s))"
    by (simp add: session_closes_events channel_closes_events)
  have o: "concat (map session_opened ?es) = concat (map session_opened (trace s))"
    by (simp add: session_closes_events channel_closes_events)
  have "ChannelClosed i \<in> set ?es" if "i \<in> set (concat (map connected (trace s)))" for i
  proof -
    from assms(1) that obtain h c where hc: "Clients (tr s) h = Some c" "c_id c = i"
      unfolding held_def by blast
    then have "h \<in> set ks" using assms(2) by auto
    from channel_closes_covers [OF this hc(1)] hc(2) show ?thesis by simp
  qed
  then have 1: "open_channels ?es = []"
    unfolding open_channels_def c by (simp add: filter_empty_conv)
  have "SessionClosed i \<in> set ?es" if "i \<in> set (concat (map session_opened (trace s)))" for i
  proof -
    from assms(1) that obtain h sc where hc: "SftpClient (tr s) h = Some (Some sc)" "sc_id sc = i"
      unfolding held_def by blast
    then have "h \<in> dom (Clients (tr s))" using assms(1) unfolding held_def by blast
    then have "h \<in> set ks" using assms(2) by auto
    from session_closes_covers [OF this hc(1)] hc(2) show ?thesis by simp
  qed
  then have 2: "open_sessions ?es = []"
    unfolding open_sessions_def o by (simp add: filter_empty_conv)
  from 1 2 show ?thesis by simp
qed

section \<open>A method that is neither GET nor PUT\<close>

lemma held_step:
  assumes "held s" and "h \<notin> dom (Clients (tr s))"
      and "tr s3 = (tr s)\<lparr>Clients := (Clients (tr s))(h \<mapsto> \<lparr>c_id = i, c_RemoteAddr = a\<rparr>),
                            SftpClient := (SftpClient (tr s))(h \<mapsto> Some \<lparr>sc_id = i, sc_remote = r\<rparr>)\<rparr>"
      and "trace s3 = trace s @ [Dial h, Connected i, SessionOpened i]"
  shows "held s3"
proof -
  have hs: "h \<notin> dom (SftpClient (tr s))" using assms(1,2) unfolding held_def by simp
  have c3: "Clients (tr s3) = (Clients (tr s))(h \<mapsto> \<lparr>c_id = i, c_RemoteAddr = a\<rparr>)"
    by (simp add: assms(3))
  have f3: "SftpClient (tr s3) = (SftpClient (tr s))(h \<mapsto> Some \<lparr>sc_id = i, sc_remote = r\<rparr>)"
    by (simp add: assms(3))
  have 1: "\<exists>h' c. Clients (tr s3) h' = Some c \<and> c_id c = j"
    if "j \<in> set (concat (map connected (trace s3)))" for j
  proof (cases "j = i")
    case True
    then show ?thesis unfolding c3 by (intro exI [of _ h]) simp
  next
    case False
    with that have "j \<in> set (concat (map connected (trace s)))" by (simp add: assms(4))
    with assms(1) obtain h' c where hc: "Clients (tr s) h' = Some c" "c_id c = j"
      unfolding held_def by blast
    then have "h' \<noteq> h" using assms(2) by auto
    with hc show ?thesis unfolding c3 by (intro exI [of _ h'] exI [of _ c]) simp
  qed
  have 2: "\<exists>h' sc. SftpClient (tr s3) h' = Some (Some sc) \<and> sc_id sc = j"
    if "j \<in> set (concat (map session_opened (trace s3)))" for j
  proof (cases "j = i")
    case True
    then show ?thesis unfolding f3 by (intro exI [of _ h]) simp
  next
    case False
    with that have "j \<in> set (concat (map session_opened (trace s)))" by (simp add: assms(4))
    with assms(1) obtain h' sc where hc: "SftpClient (tr s) h' = Some (Some sc)" "sc_id sc = j"
      unfolding held_def by blast
    then have "h' \<noteq> h" using hs by auto
    with hc show ?thesis unfolding f3 by (intro exI [of _ h'] exI [of _ sc]) simp
  qed
  have 3: "\<forall>h'. SftpClient (tr s3) h' \<noteq> Some None"
    using assms(1) unfolding held_def f3 by simp
  have 4: "dom (SftpClient (tr s3)) = dom (Clients (tr s3))"
    using assms(1) unfolding held_def c3 f3 by simp
  show ?thesis
    unfolding held_def using 1 2 3 4 by blast
qed

lemma dial_all_held:
  "held s \<Longrightarrow> distinct (map (with_port w) hs)
     \<Longrightarrow> set (map (with_port w) hs) \<inter> dom (Clients (tr s)) = {}
     \<Longrightarrow> dial_all w hs s = (None, s1)
     \<Longrightarrow> held s1 \<and> dom (Clients (tr s1)) = dom (Clients (tr s)) \<union> set (map (with_port w) hs)"
proof (induction hs arbitrary: s)
  case Nil
  then show ?case by simp
next
  case (Cons h0 hs)
  let ?h = "with_port w h0"
  from Cons.prems(4) obtain p where p: "ssh_Dial w ?h = Inr p"
    by (cases "ssh_Dial w ?h") (auto simp: Let_def)
  from Cons.prems(4) p obtain r where r: "p_NewClient p = Inr r"
    by (cases "p_NewClient p") (auto simp: Let_def emit_def)
  from Cons.prems(4) p r obtain s3 where rec: "dial_all w hs s3 = (None, s1)"
    and t3: "tr s3 = (tr s)\<lparr>Clients := (Clients (tr s))(?h \<mapsto> \<lparr>c_id = conns s, c_RemoteAddr = p_RemoteAddr p\<rparr>),
                            SftpClient := (SftpClient (tr s))(?h \<mapsto> Some \<lparr>sc_id = conns s, sc_remote = r\<rparr>)\<rparr>"
    and e3: "trace s3 = trace s @ [Dial ?h, Connected (conns s), SessionOpened (conns s)]"
    by (simp add: Let_def emit_def)
  have nh: "?h \<notin> dom (Clients (tr s))" using Cons.prems(3) by auto
  have h3: "held s3" by (rule held_step [OF Cons.prems(1) nh t3 e3])
  have d3: "dom (Clients (tr s3)) = insert ?h (dom (Clients (tr s)))"
    by (simp add: t3)
  have dis: "distinct (map (with_port w) hs)" using Cons.prems(2) by simp
  have int: "set (map (with_port w) hs) \<inter> dom (Clients (tr s3)) = {}"
    using Cons.prems(2,3) d3 by auto
  from Cons.IH [OF h3 dis int rec] d3 show ?case by auto
qed

lemma held_fresh: "Clients t = Map.empty \<Longrightarrow> SftpClient t = Map.empty \<Longrightarrow> held (fresh t)"
  by (simp add: held_def fresh_def)

lemma initClient_held:
  assumes "Clients t = Map.empty" and "SftpClient t = Map.empty"
      and "distinct (map (with_port w) (Hosts t))"
      and "initClient w (fresh t) = (Return None, s1)"
  shows "held s1 \<and> dom (Clients (tr s1)) = set (map (with_port w) (Hosts t))"
proof -
  from assms(4) have d: "dial_all w (Hosts t) (fresh t) = (None, s1)"
    by (auto simp: initClient_def fresh_def split: option.splits prod.splits)
  have i: "set (map (with_port w) (Hosts t)) \<inter> dom (Clients (tr (fresh t))) = {}"
    using assms(1) by (simp add: fresh_def)
  from dial_all_held [OF held_fresh [OF assms(1,2)] assms(3) i d] assms(1)
  show ?thesis by (simp add: fresh_def)
qed

text \<open>
  Claim C10, amended. For a new transfer (its pool is empty) whose method is neither
  \<^verbatim>\<open>GET\<close> nor \<^verbatim>\<open>PUT\<close> and whose hosts differ after the default port is added: when every
  host connects, \<open>Start\<close> dials all hosts, closes every session and every connection that
  it opened, performs no transfer, leaves the result map as it was and returns nil; when
  a connection fails, \<open>Start\<close> returns that error. The keys of the pool are visited in the
  order \<open>ks\<close>, which holds all of them.
\<close>

theorem unknown_method_connects_and_closes:
  assumes "Method t \<noteq> TransferGet" and "Method t \<noteq> TransferPut"
      and "Clients t = Map.empty" and "SftpClient t = Map.empty"
      and "distinct (map (with_port w) (Hosts t))"
      and "set (map (with_port w) (Hosts t)) \<subseteq> set ks"
      and "s' = snd (Start w ks (fresh t))"
  shows "(initClient w (fresh t) = (Return None, s1) \<longrightarrow>
            Start w ks (fresh t)
              = (Return None, emit (session_closes (tr s1) ks @ channel_closes (tr s1) ks) s1)
          \<and> dials (trace s') = map (with_port w) (Hosts t)
          \<and> length (concat (map connected (trace s'))) = length (Hosts t)
          \<and> open_channels (trace s') = [] \<and> open_sessions (trace s') = []
          \<and> filter transfer_event (trace s') = []
          \<and> TransferResult (tr s') = TransferResult t)
       \<and> (initClient w (fresh t) = (Return (Some e), s1) \<longrightarrow>
            Start w ks (fresh t) = (Return (Some e), s1))"
proof (intro conjI impI)
  assume i: "initClient w (fresh t) = (Return None, s1)"
  let ?cl = "session_closes (tr s1) ks @ channel_closes (tr s1) ks"
  note q = initClient_quiet [OF i]
  from initClient_held [OF assms(3,4,5) i]
  have h: "held s1" and d: "dom (Clients (tr s1)) = set (map (with_port w) (Hosts t))"
    by simp_all
  have nn: "\<forall>h. SftpClient (tr s1) h \<noteq> Some None" using h unfolding held_def by simp
  have m: "Method (tr s1) \<noteq> TransferGet" "Method (tr s1) \<noteq> TransferPut"
    using q assms(1,2) by (simp_all add: fresh_def)
  show st: "Start w ks (fresh t) = (Return None, emit ?cl s1)"
    using m close_all_emit [OF nn, of ks] by (simp add: Start_def i)
  then have s': "s' = emit ?cl s1" using assms(7) by simp
  have tr: "trace s' = trace s1 @ ?cl" unfolding s' by (simp add: emit_def)
  show "dials (trace s') = map (with_port w) (Hosts t)"
    using initClient_trace [OF i]
    by (simp add: tr session_closes_events channel_closes_events fresh_def)
  show "length (concat (map connected (trace s'))) = length (Hosts t)"
    using initClient_trace [OF i]
    by (simp add: tr session_closes_events channel_closes_events fresh_def)
  have sub: "dom (Clients (tr s1)) \<subseteq> set ks" using d assms(6) by simp
  show "open_channels (trace s') = []"
    using held_closed [OF h sub] by (simp add: tr)
  show "open_sessions (trace s') = []"
    using held_closed [OF h sub] by (simp add: tr)
  show "filter transfer_event (trace s') = []"
    using initClient_events [OF i]
    by (simp add: tr session_closes_events channel_closes_events fresh_def)
  show "TransferResult (tr s') = TransferResult t"
    using q by (simp add: s' emit_def fresh_def)
next
  assume "initClient w (fresh t) = (Return (Some e), s1)"
  then show "Start w ks (fresh t) = (Return (Some e), s1)" by (rule Start_abort)
qed

text \<open>
  In the example, the method is \<^verbatim>\<open>SYNC\<close> and both hosts connect.
\<close>

theorem unknown_method_connects_and_closes_witness:
  "Method (NewTransfer ''SYNC'' ''out'' ''/etc/motd'' ex_hosts) \<noteq> TransferGet
   \<and> Method (NewTransfer ''SYNC'' ''out'' ''/etc/motd'' ex_hosts) \<noteq> TransferPut
   \<and> Clients (NewTransfer ''SYNC'' ''out'' ''/etc/motd'' ex_hosts) = Map.empty
   \<and> SftpClient (NewTransfer ''SYNC'' ''out'' ''/etc/motd'' ex_hosts) = Map.empty
   \<and> distinct (map (with_port ex_world) (Hosts (NewTransfer ''SYNC'' ''out'' ''/etc/motd'' ex_hosts)))
   \<and> set (map (with_port ex_world) (Hosts (NewTransfer ''SYNC'' ''out'' ''/etc/motd'' ex_hosts)))
        \<subseteq> set ex_keys
   \<and> fst (initClient ex_world (fresh (NewTransfer ''SYNC'' ''out'' ''/etc/motd'' ex_hosts))) = Return None
   \<and> fst (Start ex_world ex_keys (fresh (NewTransfer ''SYNC'' ''out'' ''/etc/motd'' ex_hosts))) = Return None
   \<and> dials (trace (snd (Start ex_world ex_keys (fresh (NewTransfer ''SYNC'' ''out'' ''/etc/motd'' ex_hosts)))))
        = [''10.0.0.1:22'', ''10.0.0.2:22'']
   \<and> open_channels (trace (snd (Start ex_world ex_keys
        (fresh (NewTransfer ''SYNC'' ''out'' ''/etc/motd'' ex_hosts))))) = []
   \<and> open_sessions (trace (snd (Start ex_world ex_keys
        (fresh (NewTransfer ''SYNC'' ''out'' ''/etc/motd'' ex_hosts))))) = []
   \<and> fst (initClient ex_world (fresh (NewTransfer ''SYNC'' ''out'' ''/etc/motd'' [''10.0.0.3''])))
        = Return (Some (Lib ''connection refused''))
   \<and> fst (Start ex_world (''10.0.0.3:22'' # ex_keys)
             (fresh (NewTransfer ''SYNC'' ''out'' ''/etc/motd'' [''10.0.0.3''])))
        = Return (Some (Lib ''connection refused''))"
proof -
  let ?t = "NewTransfer ''SYNC'' ''out'' ''/etc/motd'' ex_hosts"
  have m1: "Method ?t \<noteq> TransferGet" by (simp add: NewTransfer_def TransferGet_def)
  have m2: "Method ?t \<noteq> TransferPut" by (simp add: NewTransfer_def TransferPut_def)
  have c: "Clients ?t = Map.empty" by (simp add: NewTransfer_def)
  have f: "SftpClient ?t = Map.empty" by (simp add: NewTransfer_def)
  have hp: "map (with_port ex_world) (Hosts ?t) = [''10.0.0.1:22'', ''10.0.0.2:22'']"
    by (simp add: NewTransfer_def ex_hosts_def with_port_def ex_world_def Itoa_def
          digits.simps digit_char_def)
  have d: "distinct (map (with_port ex_world) (Hosts ?t))" unfolding hp by simp
  have s: "set (map (with_port ex_world) (Hosts ?t)) \<subseteq> set ex_keys"
    unfolding hp by (simp add: ex_keys_def)
  have i0: "fst (initClient ex_world (fresh ?t)) = Return None" by code_simp
  have i: "initClient ex_world (fresh ?t) = (Return None, snd (initClient ex_world (fresh ?t)))"
    using i0 prod.collapse [of "initClient ex_world (fresh ?t)"] by simp
  note th = unknown_method_connects_and_closes [OF m1 m2 c f d s refl,
      where ?s1.0 = "snd (initClient ex_world (fresh ?t))", THEN conjunct1, THEN mp, OF i]
  have r: "fst (Start ex_world ex_keys (fresh ?t)) = Return None"
    using th [THEN conjunct1] by simp
  have dl: "dials (trace (snd (Start ex_world ex_keys (fresh ?t)))) = [''10.0.0.1:22'', ''10.0.0.2:22'']"
    using th [THEN conjunct2, THEN conjunct1] unfolding hp .
  have oc: "open_channels (trace (snd (Start ex_world ex_keys (fresh ?t)))) = []"
    using th by (elim conjE)
  have os: "open_sessions (trace (snd (Start ex_world ex_keys (fresh ?t)))) = []"
    using th by (elim conjE)
  let ?u = "NewTransfer ''SYNC'' ''out'' ''/etc/motd'' [''10.0.0.3'']"
  have u1: "Method ?u \<noteq> TransferGet" by (simp add: NewTransfer_def TransferGet_def)
  have u2: "Method ?u \<noteq> TransferPut" by (simp add: NewTransfer_def TransferPut_def)
  have uc: "Clients ?u = Map.empty" by (simp add: NewTransfer_def)
  have uf: "SftpClient ?u = Map.empty" by (simp add: NewTransfer_def)
  have ud: "distinct (map (with_port ex_world) (Hosts ?u))" by (simp add: NewTransfer_def)
  have up: "map (with_port ex_world) (Hosts ?u) = [''10.0.0.3:22'']"
    by (simp add: NewTransfer_def with_port_def ex_world_def Itoa_def digits.simps digit_char_def)
  have j0: "fst (initClient ex_world (fresh ?u)) = Return (Some (Lib ''connection refused''))"
    by code_simp
  have j: "initClient ex_world (fresh ?u)
             = (Return (Some (Lib ''connection refused'')), snd (initClient ex_world (fresh ?u)))"
    using j0 prod.collapse [of "initClient ex_world (fresh ?u)"] by simp
  have "Start ex_world (''10.0.0.3:22'' # ex_keys) (fresh ?u)
          = (Return (Some (Lib ''connection refused'')), snd (initClient ex_world (fresh ?u)))"
    using unknown_method_connects_and_closes [OF u1 u2 uc uf ud _ refl,
      where ks = "''10.0.0.3:22'' # ex_keys" and e = "Lib ''connection refused''"
        and ?s1.0 = "snd (initClient ex_world (fresh ?u))", THEN conjunct2, THEN mp, OF _ j]
    unfolding up by simp
  then have ur: "fst (Start ex_world (''10.0.0.3:22'' # ex_keys) (fresh ?u))
                   = Return (Some (Lib ''connection refused''))"
    by simp
  from m1 m2 c f d s i0 r dl oc os j0 ur show ?thesis by (intro conjI)
qed

text \<open>
  Claim C10 as stated fails. When the one host refuses the connection, \<open>Start\<close> returns
  the error of the dial, not nil, and no connection is made. And when a host is listed
  twice, once with the port and once without, it is dialled twice under one key of the
  pool, and the first connection is left open.
\<close>

theorem unknown_method_reports_dial_error:
  "Method (NewTransfer ''SYNC'' ''out'' ''/etc/motd'' [''10.0.0.3'']) \<noteq> TransferGet
   \<and> Method (NewTransfer ''SYNC'' ''out'' ''/etc/motd'' [''10.0.0.3'']) \<noteq> TransferPut
   \<and> fst (Start ex_world ex_keys (fresh (NewTransfer ''SYNC'' ''out'' ''/etc/motd'' [''10.0.0.3''])))
        = Return (Some (Lib ''connection refused''))
   \<and> fst (Start ex_world ex_keys (fresh (NewTransfer ''SYNC'' ''out'' ''/etc/motd'' [''10.0.0.3''])))
        \<noteq> Return None
   \<and> concat (map connected (trace (snd (Start ex_world ex_keys
        (fresh (NewTransfer ''SYNC'' ''out'' ''/etc/motd'' [''10.0.0.3'']))))))
        = []
   \<and> fst (Start ex_world ex_keys
        (fresh (NewTransfer ''SYNC'' ''out'' ''/etc/motd'' [''10.0.0.1'', ''10.0.0.1:22''])))
        = Return None
   \<and> open_channels (trace (snd (Start ex_world ex_keys
        (fresh (NewTransfer ''SYNC'' ''out'' ''/etc/motd'' [''10.0.0.1'', ''10.0.0.1:22''])))))
        = [0]"
proof -
  let ?t = "NewTransfer ''SYNC'' ''out'' ''/etc/motd'' [''10.0.0.3'']"
  have m1: "Method ?t \<noteq> TransferGet" by (simp add: NewTransfer_def TransferGet_def)
  have m2: "Method ?t \<noteq> TransferPut" by (simp add: NewTransfer_def TransferPut_def)
  have r: "fst (Start ex_world ex_keys (fresh ?t)) = Return (Some (Lib ''connection refused''))"
    by code_simp
  have n: "fst (Start ex_world ex_keys (fresh ?t)) \<noteq> Return None"
    unfolding r by simp
  have c: "concat (map connected (trace (snd (Start ex_world ex_keys (fresh ?t))))) = []"
    by code_simp
  have t2: "trace (snd (Start ex_world ex_keys
        (fresh (NewTransfer ''SYNC'' ''out'' ''/etc/motd'' [''10.0.0.1'', ''10.0.0.1:22'']))))
     = [Dial ''10.0.0.1:22'', Connected 0, SessionOpened 0,
        Dial ''10.0.0.1:22'', Connected 1, SessionOpened 1, SessionClosed 1, ChannelClosed 1]"
    by code_simp
  have o2: "open_channels (trace (snd (Start ex_world ex_keys
        (fresh (NewTransfer ''SYNC'' ''out'' ''/etc/motd'' [''10.0.0.1'', ''10.0.0.1:22''])))))
        = [0]"
    unfolding t2 by (simp add: open_channels_def)
  have r2: "fst (Start ex_world ex_keys
        (fresh (NewTransfer ''SYNC'' ''out'' ''/etc/motd'' [''10.0.0.1'', ''10.0.0.1:22''])))
      = Return None"
    by code_simp
  from m1 m2 r n c r2 o2 show ?thesis by (intro conjI)
qed

section \<open>The printed lines\<close>

lemma pad_left_long: "n \<le> length x \<Longrightarrow> pad_left n x = x"
  by (simp add: pad_left_def)

lemma PrettyPrint_map:
  "PrettyPrint w ks t =
     map (\<lambda>k. result_line w k (the (TransferResult t k)))
         (filter (\<lambda>k. TransferResult t k \<noteq> None) ks)"
  by (induction ks) (auto split: option.splits)

lemma PrettyPrint_length:
  assumes "distinct ks" and "dom (TransferResult t) \<subseteq> set ks"
  shows "length (PrettyPrint w ks t) = card (dom (TransferResult t))"
proof -
  have "set (filter (\<lambda>k. TransferResult t k \<noteq> None) ks) = dom (TransferResult t)"
    using assms(2) by (auto simp: dom_def)
  moreover have "distinct (filter (\<lambda>k. TransferResult t k \<noteq> None) ks)"
    using assms(1) by simp
  ultimately have "card (dom (TransferResult t)) = length (filter (\<lambda>k. TransferResult t k \<noteq> None) ks)"
    using distinct_card by fastforce
  then show ?thesis by (simp add: PrettyPrint_map)
qed

text \<open>
  Claim C9, amended. The line printed for a key \<open>h\<close> of the result map is the host right
  aligned in a field of 21 characters, that is with \<open>21 - length h\<close> spaces before it, then
  \<^verbatim>\<open>: <source> => <destination> <bytes>Byte <seconds> seconds\<close> and a newline, where the size
  is printed in decimal and the seconds with two decimals. It starts with the host itself
  when the host has 21 characters or more, and with a space otherwise. One line is printed
  for each key of the result map.
\<close>

theorem result_line_format:
  "result_line w h ft =
      replicate (21 - length h) CHR '' '' @ h @ '': '' @ Source ft @ '' => '' @ Target ft @ '' ''
        @ Itoa (Size ft) @ ''Byte '' @ format_seconds w (Elapse ft) @ '' seconds'' @ [CHR 0x0A]
   \<and> (21 \<le> length h \<longrightarrow>
        result_line w h ft =
          h @ '': '' @ Source ft @ '' => '' @ Target ft @ '' ''
            @ Itoa (Size ft) @ ''Byte '' @ format_seconds w (Elapse ft) @ '' seconds'' @ [CHR 0x0A])
   \<and> (length h < 21 \<longrightarrow> hd (result_line w h ft) = CHR '' '')
   \<and> PrettyPrint w ks t =
        map (\<lambda>k. result_line w k (the (TransferResult t k)))
            (filter (\<lambda>k. TransferResult t k \<noteq> None) ks)
   \<and> (distinct ks \<and> dom (TransferResult t) \<subseteq> set ks \<longrightarrow>
        length (PrettyPrint w ks t) = card (dom (TransferResult t)))"
proof (intro conjI impI)
  show "result_line w h ft =
      replicate (21 - length h) CHR '' '' @ h @ '': '' @ Source ft @ '' => '' @ Target ft @ '' ''
        @ Itoa (Size ft) @ ''Byte '' @ format_seconds w (Elapse ft) @ '' seconds'' @ [CHR 0x0A]"
    by (simp add: result_line_def pad_left_def)
next
  assume "21 \<le> length h"
  then show "result_line w h ft =
          h @ '': '' @ Source ft @ '' => '' @ Target ft @ '' ''
            @ Itoa (Size ft) @ ''Byte '' @ format_seconds w (Elapse ft) @ '' seconds'' @ [CHR 0x0A]"
    by (simp add: result_line_def pad_left_long)
next
  assume "length h < 21"
  then obtain n where "21 - length h = Suc n" by (cases "21 - length h") auto
  then show "hd (result_line w h ft) = CHR '' ''"
    by (simp add: result_line_def pad_left_def)
next
  show "PrettyPrint w ks t =
        map (\<lambda>k. result_line w k (the (TransferResult t k)))
            (filter (\<lambda>k. TransferResult t k \<noteq> None) ks)"
    by (rule PrettyPrint_map)
next
  assume "distinct ks \<and> dom (TransferResult t) \<subseteq> set ks"
  then show "length (PrettyPrint w ks t) = card (dom (TransferResult t))"
    using PrettyPrint_length by blast
qed

text \<open>
  In the example, a host of 22 characters is printed as it is, and the map with one
  entry gives one line.
\<close>

theorem result_line_format_witness:
  "21 \<le> length ''files.example.org:2222''
   \<and> result_line ex_world ''files.example.org:2222'' ex_outcome
        = ''files.example.org:2222: /etc/motd => out/motd-10-0-0-1. 3Byte 0.00 seconds'' @ [CHR 0x0A]
   \<and> length ''10.0.0.1:22'' < 21
   \<and> hd (result_line ex_world ''10.0.0.1:22'' ex_outcome) = CHR '' ''
   \<and> distinct [''10.0.0.1:22'']
   \<and> dom (TransferResult ((NewTransfer ''GET'' ''out'' ''/etc/motd'' ex_hosts)
              \<lparr>TransferResult := [''10.0.0.1:22'' \<mapsto> ex_outcome]\<rparr>)) \<subseteq> set [''10.0.0.1:22'']
   \<and> length (PrettyPrint ex_world [''10.0.0.1:22'']
         ((NewTransfer ''GET'' ''out'' ''/etc/motd'' ex_hosts)
              \<lparr>TransferResult := [''10.0.0.1:22'' \<mapsto> ex_outcome]\<rparr>)) = 1"
proof -
  let ?t = "(NewTransfer ''GET'' ''out'' ''/etc/motd'' ex_hosts)
              \<lparr>TransferResult := [''10.0.0.1:22'' \<mapsto> ex_outcome]\<rparr>"
  note th = result_line_format [where w = ex_world and ft = ex_outcome and t = ?t
      and ks = "[''10.0.0.1:22'']"]
  have l1: "21 \<le> length ''files.example.org:2222''" by simp
  have i: "Itoa 3 = ''3''" by (simp add: Itoa_def digits.simps digit_char_def)
  have "result_line ex_world ''files.example.org:2222'' ex_outcome
        = ''files.example.org:2222'' @ '': '' @ Source ex_outcome @ '' => '' @ Target ex_outcome @ '' ''
            @ Itoa (Size ex_outcome) @ ''Byte '' @ format_seconds ex_world (Elapse ex_outcome)
            @ '' seconds'' @ [CHR 0x0A]"
    using th [where h = "''files.example.org:2222''", THEN conjunct2, THEN conjunct1] l1
    by (rule mp)
  then have r1: "result_line ex_world ''files.example.org:2222'' ex_outcome
        = ''files.example.org:2222: /etc/motd => out/motd-10-0-0-1. 3Byte 0.00 seconds'' @ [CHR 0x0A]"
    by (simp add: ex_outcome_def ex_world_def i)
  have l2: "length ''10.0.0.1:22'' < 21" by simp
  have r2: "hd (result_line ex_world ''10.0.0.1:22'' ex_outcome) = CHR '' ''"
    using th [where h = "''10.0.0.1:22''", THEN conjunct2, THEN conjunct2, THEN conjunct1] l2
    by (rule mp)
  have d: "distinct [''10.0.0.1:22'']" by simp
  have s: "dom (TransferResult ?t) \<subseteq> set [''10.0.0.1:22'']" by simp
  have "length (PrettyPrint ex_world [''10.0.0.1:22''] ?t) = card (dom (TransferResult ?t))"
    using th [where h = "''10.0.0.1:22''", THEN conjunct2, THEN conjunct2, THEN conjunct2,
              THEN conjunct2] d s
    by blast
  then have r3: "length (PrettyPrint ex_world [''10.0.0.1:22''] ?t) = 1" by simp
  from l1 r1 l2 r2 d s r3 show ?thesis by (intro conjI)
qed

text \<open>
  Claim C9 as stated fails: the line for \<^verbatim>\<open>10.0.0.1:22\<close> starts with ten spaces.
\<close>

theorem result_line_is_padded:
  "result_line ex_world ''10.0.0.1:22'' ex_outcome
     = ''          10.0.0.1:22: /etc/motd => out/motd-10-0-0-1. 3Byte 0.00 seconds'' @ [CHR 0x0A]
   \<and> result_line ex_world ''10.0.0.1:22'' ex_outcome
     \<noteq> ''10.0.0.1:22: /etc/motd => out/motd-10-0-0-1. 3Byte 0.00 seconds'' @ [CHR 0x0A]"
proof -
  have i: "Itoa 3 = ''3''" by (simp add: Itoa_def digits.simps digit_char_def)
  have r: "result_line ex_world ''10.0.0.1:22'' ex_outcome
     = ''          10.0.0.1:22: /etc/motd => out/motd-10-0-0-1. 3Byte 0.00 seconds'' @ [CHR 0x0A]"
    by (simp add: result_line_def pad_left_def ex_outcome_def ex_world_def i eval_nat_numeral)
  have n: "result_line ex_world ''10.0.0.1:22'' ex_outcome
     \<noteq> ''10.0.0.1:22: /etc/motd => out/motd-10-0-0-1. 3Byte 0.00 seconds'' @ [CHR 0x0A]"
    unfolding r by simp
  from r n show ?thesis by (intro conjI)
qed

end
